theory Spec2Isabelle
  imports Complex_Main "HOL-Library.Sublist" "HOL-Library.Product_Lexorder"
begin

section \<open>Python values used by the three agents\<close>

text \<open>
  A Python \<open>str\<close> is modelled as an Isabelle \<open>string\<close>: a list of 8-bit characters, read
  as the code points U+0000 to U+00FF. On this range \<open>str.lower\<close>, \<open>len\<close>, the substring
  test \<open>in\<close>, \<open>str.split\<close> and the regular expression \<open>\d+\<close> are modelled exactly; strings
  with code points beyond U+00FF are outside the model.
\<close>

definition lower_char :: "char \<Rightarrow> char" where
  "lower_char c =
     (let n = (of_char c :: nat)
      in if (65 \<le> n \<and> n \<le> 90) \<or> (192 \<le> n \<and> n \<le> 222 \<and> n \<noteq> 215)
         then char_of (n + 32) else c)"

definition lower :: "string \<Rightarrow> string" where
  "lower s = map lower_char s"

text \<open>\<open>contains sub s\<close> is Python's \<open>sub in s\<close> on strings.\<close>

fun contains :: "string \<Rightarrow> string \<Rightarrow> bool" where
  "contains sub [] = (sub = [])"
| "contains sub (c # cs) = (prefix sub (c # cs) \<or> contains sub cs)"

text \<open>\<open>any_in ws s\<close> is \<open>any(w in s for w in ws)\<close>.\<close>

definition any_in :: "string list \<Rightarrow> string \<Rightarrow> bool" where
  "any_in ws s = list_ex (\<lambda>w. contains w s) ws"

text \<open>Whitespace of \<open>str.split()\<close> and the number of words it returns.\<close>

definition is_space :: "char \<Rightarrow> bool" where
  "is_space c =
     (let n = (of_char c :: nat)
      in (9 \<le> n \<and> n \<le> 13) \<or> (28 \<le> n \<and> n \<le> 32) \<or> n = 133 \<or> n = 160)"

fun split_words :: "string \<Rightarrow> string \<Rightarrow> string list" where
  "split_words cur [] = (if cur = [] then [] else [cur])"
| "split_words cur (c # cs) =
     (if is_space c then (if cur = [] then split_words [] cs else cur # split_words [] cs)
      else split_words (cur @ [c]) cs)"

definition split :: "string \<Rightarrow> string list" where
  "split s = split_words [] s"

datatype pyval =
    VNone
  | VBool bool
  | VInt int
  | VFloat rat
  | VNaN
  | VStr string
  | VList "pyval list"
  | VDict "(string \<times> pyval) list"

type_synonym pydict = "(string \<times> pyval) list"

text \<open>Truth value of a Python object, as \<open>if x:\<close> and \<open>bool(x)\<close> compute it.\<close>

fun truthy :: "pyval \<Rightarrow> bool" where
  "truthy VNone = False"
| "truthy (VBool b) = b"
| "truthy (VInt i) = (i \<noteq> 0)"
| "truthy (VFloat x) = (x \<noteq> 0)"
| "truthy VNaN = True"
| "truthy (VStr s) = (s \<noteq> [])"
| "truthy (VList xs) = (xs \<noteq> [])"
| "truthy (VDict d) = (d \<noteq> [])"

text \<open>\<open>d.get(k)\<close>, whose missing key gives \<open>None\<close>.\<close>

definition dict_get :: "pydict \<Rightarrow> string \<Rightarrow> pyval" where
  "dict_get d k = (case map_of d k of None \<Rightarrow> VNone | Some v \<Rightarrow> v)"

section \<open>Binary64 floating point\<close>

text \<open>
  A finite Python \<open>float\<close> is the rational number it denotes. \<open>fl\<close> rounds a rational to
  the nearest number with a 53-bit significand, ties to the even significand, which is
  IEEE 754 rounding for every magnitude between \<open>2^-1022\<close> and \<open>2^1024\<close>; the scores,
  thresholds and products of this program all lie in that range or are zero.
\<close>

text \<open>\<open>bit_length n\<close> is the number of binary digits of a positive integer.\<close>

function bit_length :: "int \<Rightarrow> int" where
  "bit_length n = (if n \<le> 0 then 0 else 1 + bit_length (n div 2))"
  by pat_completeness auto
termination
  by (relation "measure nat") auto

declare bit_length.simps [simp del]

definition round_half_even :: "int \<Rightarrow> int \<Rightarrow> int" where
  "round_half_even num den =
     (let d = num div den; r = num mod den
      in if 2 * r > den \<or> (2 * r = den \<and> odd d) then d + 1 else d)"

definition fl_pos :: "int \<Rightarrow> int \<Rightarrow> rat" where
  "fl_pos p q =
     (let k = bit_length p - bit_length q;
          l = (if (if 0 \<le> k then q * 2 ^ nat k \<le> p else q \<le> p * 2 ^ nat (- k))
               then k else k - 1);
          e = l - 52;
          num = (if 0 \<le> e then p else p * 2 ^ nat (- e));
          den = (if 0 \<le> e then q * 2 ^ nat e else q);
          m = round_half_even num den
      in if 0 \<le> e then of_int (m * 2 ^ nat e) else Fract m (2 ^ nat (- e)))"

definition fl :: "rat \<Rightarrow> rat" where
  "fl x =
     (case quotient_of x of (p, q) \<Rightarrow>
        if p = 0 then 0 else if 0 < p then fl_pos p q else - fl_pos (- p) q)"

definition fadd :: "rat \<Rightarrow> rat \<Rightarrow> rat" where
  "fadd a b = fl (a + b)"

definition fsub :: "rat \<Rightarrow> rat \<Rightarrow> rat" where
  "fsub a b = fl (a - b)"

definition fmul :: "rat \<Rightarrow> rat \<Rightarrow> rat" where
  "fmul a b = fl (a * b)"

text \<open>True division; every call site of the program guards against a zero divisor.\<close>

definition fdiv :: "rat \<Rightarrow> rat \<Rightarrow> rat" where
  "fdiv a b = fl (a / b)"

text \<open>A decimal literal \<open>n/d\<close> of the source denotes the nearest binary64 number.\<close>

definition lit :: "int \<Rightarrow> int \<Rightarrow> rat" where
  "lit n d = fl (Fract n d)"

section \<open>Number formatting\<close>

text \<open>Decimal digits of a non-negative integer, as \<open>str(n)\<close> writes them.\<close>

function digits :: "int \<Rightarrow> string" where
  "digits n = (if n < 10 then [char_of (48 + n)] else digits (n div 10) @ [char_of (48 + n mod 10)])"
  by pat_completeness auto
termination
  by (relation "measure nat") auto

declare digits.simps [simp del]

text \<open>The thousands separator of the format specification \<open>,\<close>, on the reversed digits.\<close>

fun commas_rev :: "string \<Rightarrow> string" where
  "commas_rev (a # b # c # d # rest) = a # b # c # CHR '','' # commas_rev (d # rest)"
| "commas_rev s = s"

definition group3 :: "string \<Rightarrow> string" where
  "group3 s = rev (commas_rev (rev s))"

text \<open>\<open>f"{n:,}"\<close> for an integer.\<close>

definition fmt_int_comma :: "int \<Rightarrow> string" where
  "fmt_int_comma n = (if n < 0 then ''-'' else []) @ group3 (digits \<bar>n\<bar>)"

text \<open>
  \<open>f"{x:.2f}"\<close> and \<open>f"{x:,.2f}"\<close> for a float: the exact value is rounded to two decimals,
  ties to even, as the correctly rounded conversion of CPython does.
\<close>

definition hundredths :: "rat \<Rightarrow> int" where
  "hundredths x = (case quotient_of (\<bar>x\<bar> * 100) of (p, q) \<Rightarrow> round_half_even p q)"

definition two_digits :: "int \<Rightarrow> string" where
  "two_digits n = [char_of (48 + n div 10), char_of (48 + n mod 10)]"

definition fmt_2f :: "rat \<Rightarrow> string" where
  "fmt_2f x =
     (let n = hundredths x
      in (if x < 0 then ''-'' else []) @ digits (n div 100) @ ''.'' @ two_digits (n mod 100))"

definition fmt_comma_2f :: "rat \<Rightarrow> string" where
  "fmt_comma_2f x =
     (let n = hundredths x
      in (if x < 0 then ''-'' else []) @ group3 (digits (n div 100)) @ ''.''
         @ two_digits (n mod 100))"

section \<open>Orchestrator: query classification\<close>

datatype QueryType = DATA_ANALYSIS | RESEARCH_QUERY | GENERAL | AMBIGUOUS

text \<open>The two lexicons of \<open>OrchestratorAgent.__init__\<close>, in the order the dictionaries are written.\<close>

definition data_keywords :: "(string \<times> string list) list" where
  "data_keywords =
     [(''analysis'',
        [''total'', ''sum'', ''average'', ''mean'', ''count'', ''maximum'', ''minimum'',
         ''plot'', ''chart'', ''graph'', ''visualize'', ''trend'', ''sales'', ''revenue'',
         ''profit'', ''expense'', ''customer'', ''product'', ''data'', ''csv'', ''excel'',
         ''table'', ''column'', ''row'', ''filter'', ''sort'', ''group'', ''aggregate'']),
      (''operations'', [''load'', ''upload'', ''import'', ''export'', ''save'', ''delete'']),
      (''visualization'',
        [''show'', ''display'', ''plot'', ''chart'', ''graph'', ''visualize'',
         ''bar'', ''line'', ''pie'', ''scatter'', ''histogram''])]"

definition research_keywords :: "(string \<times> string list) list" where
  "research_keywords =
     [(''document'',
        [''paper'', ''document'', ''pdf'', ''research'', ''study'', ''article'',
         ''publication'', ''journal'', ''abstract'', ''summary'']),
      (''analysis'',
        [''summarize'', ''extract'', ''keyword'', ''topic'', ''theme'', ''content'',
         ''methodology'', ''conclusion'', ''finding'', ''result'']),
      (''search'', [''find'', ''search'', ''locate'', ''identify'', ''discover'', ''lookup'']),
      (''questions'',
        [''what'', ''how'', ''why'', ''when'', ''where'', ''who'', ''explain'', ''describe''])]"

text \<open>
  \<open>_calculate_keyword_score\<close>: the inner loop adds \<open>len(keyword.split())\<close> for every keyword
  found in the query; the outer loop adds the quotient of each non-empty category to
  \<open>total_score\<close> and counts it in \<open>total_weight\<close>.
\<close>

definition keyword_step :: "string \<Rightarrow> string \<Rightarrow> int \<Rightarrow> int" where
  "keyword_step query keyword category_score =
     (if contains keyword query then category_score + int (length (split keyword))
      else category_score)"

definition category_step :: "string \<Rightarrow> string \<times> string list \<Rightarrow> rat \<times> int \<Rightarrow> rat \<times> int" where
  "category_step query cat acc =
     (case (cat, acc) of ((category, keywords), (total_score, total_weight)) \<Rightarrow>
        let category_score = fold (keyword_step query) keywords 0
        in if keywords \<noteq> []
           then (fadd total_score (fdiv (of_int category_score) (of_nat (length keywords))),
                 total_weight + 1)
           else (total_score, total_weight))"

definition calculate_keyword_score :: "string \<Rightarrow> (string \<times> string list) list \<Rightarrow> rat" where
  "calculate_keyword_score query keyword_categories =
     (case fold (category_step query) keyword_categories (0, 0) of
        (total_score, total_weight) \<Rightarrow>
          if 0 < total_weight then fdiv total_score (of_int total_weight) else 0)"

text \<open>\<open>_get_context_bias\<close>: the pair \<open>(bias['data'], bias['research'])\<close>.\<close>

definition get_context_bias :: "pydict option \<Rightarrow> rat \<times> rat" where
  "get_context_bias context =
     (case context of
        None \<Rightarrow> (0, 0)
      | Some c \<Rightarrow>
          if c = [] then (0, 0)
          else ((if truthy (dict_get c ''loaded_datasets'') then fadd 0 (lit 2 10) else 0),
                (if truthy (dict_get c ''loaded_documents'') then fadd 0 (lit 2 10) else 0)))"

definition tabular_tokens :: "string list" where
  "tabular_tokens = [''.csv'', ''.xlsx'', ''.xls'', ''spreadsheet'', ''excel'']"

definition document_tokens :: "string list" where
  "document_tokens = [''.pdf'', ''paper'', ''document'', ''research'']"

text \<open>\<open>min(a, b)\<close> and \<open>max(a, b)\<close> of Python return the first argument on a tie.\<close>

definition py_min :: "rat \<Rightarrow> rat \<Rightarrow> rat" where
  "py_min a b = (if b < a then b else a)"

definition py_max :: "rat \<Rightarrow> rat \<Rightarrow> rat" where
  "py_max a b = (if a < b then b else a)"

definition classify_query :: "string \<Rightarrow> pydict option \<Rightarrow> QueryType \<times> rat \<times> string" where
  "classify_query query context =
     (let query_lower = lower query
      in if any_in tabular_tokens query_lower
         then (DATA_ANALYSIS, lit 9 10, ''Query mentions data file formats'')
         else if any_in document_tokens query_lower
         then (RESEARCH_QUERY, lit 9 10, ''Query mentions research documents'')
         else
           let data_score0 = calculate_keyword_score query_lower data_keywords;
               research_score0 = calculate_keyword_score query_lower research_keywords;
               context_bias = get_context_bias context;
               data_score = fadd data_score0 (fst context_bias);
               research_score = fadd research_score0 (snd context_bias)
           in if research_score < data_score \<and> lit 3 10 < data_score
              then (DATA_ANALYSIS, py_min (lit 8 10) data_score,
                    ''Data keywords score: '' @ fmt_2f data_score)
              else if data_score < research_score \<and> lit 3 10 < research_score
              then (RESEARCH_QUERY, py_min (lit 8 10) research_score,
                    ''Research keywords score: '' @ fmt_2f research_score)
              else if \<bar>fsub data_score research_score\<bar> < lit 1 10
                      \<and> lit 2 10 < py_max data_score research_score
              then (AMBIGUOUS, lit 5 10, ''Similar scores for both agents'')
              else (GENERAL, lit 3 10, ''No clear category match''))"

section \<open>Exceptions\<close>

text \<open>
  A raised exception is a value: its class and the text \<open>str(e)\<close>. A function of the
  source that can raise returns \<open>py_error + 'a\<close>, with \<open>Inl\<close> for the exception.
\<close>

datatype py_error =
    TypeError string
  | KeyError string
  | IndexError string
  | OtherError string

fun error_str :: "py_error \<Rightarrow> string" where
  "error_str (TypeError m) = m"
| "error_str (KeyError m) = m"
| "error_str (IndexError m) = m"
| "error_str (OtherError m) = m"

section \<open>Data Intelligence Agent\<close>

subsection \<open>Data frames\<close>

text \<open>
  A pandas \<open>DataFrame\<close> is the list of its columns in column order, each a name and a
  series. The model has the two kinds of column that \<open>read_csv\<close> produces from integers
  and from text: \<open>int64\<close> (numeric) and \<open>object\<close>; \<open>float64\<close> columns, whose sums depend on
  the summation order of numpy, are outside the model. Column names are strings and
  differ from each other, as \<open>read_csv\<close> makes them.
\<close>

datatype series = Int64 "int list" | Object "string list"

type_synonym dataframe = "(string \<times> series) list"

fun series_len :: "series \<Rightarrow> nat" where
  "series_len (Int64 xs) = length xs"
| "series_len (Object xs) = length xs"

text \<open>\<open>len(df)\<close>: the number of rows.\<close>

definition df_len :: "dataframe \<Rightarrow> nat" where
  "df_len df = (case df of [] \<Rightarrow> 0 | col # _ \<Rightarrow> series_len (snd col))"

text \<open>\<open>df.select_dtypes(include=[np.number])\<close>: the numeric columns with their values.\<close>

fun numeric_items :: "dataframe \<Rightarrow> (string \<times> int list) list" where
  "numeric_items [] = []"
| "numeric_items ((name, Int64 xs) # rest) = (name, xs) # numeric_items rest"
| "numeric_items ((name, Object xs) # rest) = numeric_items rest"

definition numeric_cols :: "dataframe \<Rightarrow> string list" where
  "numeric_cols df = map fst (numeric_items df)"

text \<open>The value of row \<open>i\<close> in a column, as \<open>to_dict('records')\<close> gives it.\<close>

fun cell :: "series \<Rightarrow> nat \<Rightarrow> pyval" where
  "cell (Int64 xs) i = (if i < length xs then VInt (xs ! i) else VNone)"
| "cell (Object xs) i = (if i < length xs then VStr (xs ! i) else VNone)"

definition row_record :: "dataframe \<Rightarrow> nat \<Rightarrow> pyval" where
  "row_record df i = VDict (map (\<lambda>col. (fst col, cell (snd col) i)) df)"

text \<open>Sums of \<open>int64\<close> wrap around.\<close>

definition wrap64 :: "int \<Rightarrow> int" where
  "wrap64 x = (x + 2 ^ 63) mod 2 ^ 64 - 2 ^ 63"

datatype operation = OpSum | OpMean | OpMax | OpMin

fun op_name :: "operation \<Rightarrow> string" where
  "op_name OpSum = ''sum''"
| "op_name OpMean = ''mean''"
| "op_name OpMax = ''max''"
| "op_name OpMin = ''min''"

text \<open>\<open>operation.title()\<close>.\<close>

fun op_title :: "operation \<Rightarrow> string" where
  "op_title OpSum = ''Sum''"
| "op_title OpMean = ''Mean''"
| "op_title OpMax = ''Max''"
| "op_title OpMin = ''Min''"

text \<open>
  What the data agent takes from its libraries without the model looking inside:
  the mean of an \<open>int64\<close> series (a float sum of numpy divided by the count), and the
  two handlers that build plotly figures, each of which returns a result or raises.
\<close>

record data_lib =
  series_mean :: "int list \<Rightarrow> pyval"
  visualization_query :: "dataframe \<Rightarrow> string \<Rightarrow> py_error + pydict"
  trend_query :: "dataframe \<Rightarrow> string \<Rightarrow> py_error + pydict"

text \<open>\<open>Series.sum()\<close>, \<open>.mean()\<close>, \<open>.max()\<close> and \<open>.min()\<close> of an \<open>int64\<close> column.\<close>

fun series_agg :: "data_lib \<Rightarrow> operation \<Rightarrow> int list \<Rightarrow> pyval" where
  "series_agg lib OpSum xs = VInt (wrap64 (sum_list xs))"
| "series_agg lib OpMean xs = series_mean lib xs"
| "series_agg lib OpMax xs = (case xs of [] \<Rightarrow> VNaN | x # rest \<Rightarrow> VInt (fold max rest x))"
| "series_agg lib OpMin xs = (case xs of [] \<Rightarrow> VNaN | x # rest \<Rightarrow> VInt (fold min rest x))"

text \<open>\<open>f"{result:,.2f}"\<close> of a numpy scalar.\<close>

fun fmt_result :: "pyval \<Rightarrow> string" where
  "fmt_result (VInt i) = fmt_comma_2f (fl (of_int i))"
| "fmt_result (VFloat x) = fmt_comma_2f x"
| "fmt_result v = ''nan''"

subsection \<open>The agent and its query handlers\<close>

record data_agent =
  data_storage :: "(string \<times> dataframe) list"
  current_dataset :: "string option"
  dataset_info :: "(string \<times> pydict) list"

text \<open>
  The loop \<open>for col in df.columns: if col.lower() in query_lower: ...; break\<close>:
  the first column whose lowercased name occurs in the lowercased query.
\<close>

definition find_target_column :: "dataframe \<Rightarrow> string \<Rightarrow> string option" where
  "find_target_column df query_lower =
     find (\<lambda>col. contains (lower col) query_lower) (map fst df)"

definition handle_aggregation_query ::
  "data_lib \<Rightarrow> dataframe \<Rightarrow> string \<Rightarrow> operation \<Rightarrow> pydict" where
  "handle_aggregation_query lib df query operation =
     (let target_column = find_target_column df (lower query);
          selected = (case target_column of
                        None \<Rightarrow> None
                      | Some col \<Rightarrow>
                          if col \<noteq> [] then map_option (Pair col) (map_of (numeric_items df) col)
                          else None)
      in case selected of
           Some (col, xs) \<Rightarrow>
             let result = series_agg lib operation xs
             in [(''success'', VBool True),
                 (''result'', result),
                 (''message'', VStr (''The '' @ op_name operation @ '' of '' @ col @ '' is ''
                                      @ fmt_result result)),
                 (''query_type'', VStr ''aggregation'')]
         | None \<Rightarrow>
             let results = map (\<lambda>item. (fst item, series_agg lib operation (snd item)))
                               (numeric_items df)
             in [(''success'', VBool True),
                 (''results'', VDict results),
                 (''message'', VStr (op_title operation @ '' values for all numeric columns'')),
                 (''query_type'', VStr ''aggregation'')])"

definition handle_count_query :: "dataframe \<Rightarrow> string \<Rightarrow> pydict" where
  "handle_count_query df query =
     [(''success'', VBool True),
      (''result'', VInt (int (df_len df))),
      (''message'', VStr (''Total number of records: '' @ fmt_int_comma (int (df_len df)))),
      (''query_type'', VStr ''count'')]"

text \<open>\<open>re.findall(r'\d+', query)\<close> and \<open>int(numbers[0])\<close>: the first run of digits.\<close>

definition is_digit :: "char \<Rightarrow> bool" where
  "is_digit c = (let n = (of_char c :: nat) in 48 \<le> n \<and> n \<le> 57)"

definition int_of_digits :: "string \<Rightarrow> int" where
  "int_of_digits ds = foldl (\<lambda>acc c. 10 * acc + (of_char c - 48)) 0 ds"

definition first_number :: "string \<Rightarrow> int option" where
  "first_number query =
     (let numbers0 = takeWhile is_digit (dropWhile (\<lambda>c. \<not> is_digit c) query)
      in if numbers0 = [] then None else Some (int_of_digits numbers0))"

text \<open>
  \<open>df.nlargest(n, column)\<close> and \<open>df.nsmallest(n, column)\<close> with the default \<open>keep='first'\<close>:
  the positions of the first \<open>n\<close> rows in descending (ascending) order of the column, rows
  with equal values in their original order. A column that is not numeric raises
  \<open>TypeError\<close>.
\<close>

definition nlargest_positions :: "int \<Rightarrow> int list \<Rightarrow> nat list" where
  "nlargest_positions n xs = take (nat n) (sort_key (\<lambda>i. - (xs ! i)) [0..<length xs])"

definition nsmallest_positions :: "int \<Rightarrow> int list \<Rightarrow> nat list" where
  "nsmallest_positions n xs = take (nat n) (sort_key (\<lambda>i. xs ! i) [0..<length xs])"

definition select_n :: "bool \<Rightarrow> int \<Rightarrow> dataframe \<Rightarrow> string \<Rightarrow> py_error + pyval list" where
  "select_n ascending n df column =
     (case map_of df column of
        None \<Rightarrow> Inl (KeyError column)
      | Some (Object xs) \<Rightarrow>
          Inl (TypeError (''Column '' @ column @ '' has dtype object, cannot use method ''
                          @ (if ascending then ''nsmallest'' else ''nlargest'')
                          @ '' with this dtype''))
      | Some (Int64 xs) \<Rightarrow>
          Inr (map (row_record df)
                 (if ascending then nsmallest_positions n xs else nlargest_positions n xs)))"

definition handle_ranking_query :: "dataframe \<Rightarrow> string \<Rightarrow> py_error + pydict" where
  "handle_ranking_query df query =
     (let query_lower = lower query;
          n = (case first_number query of None \<Rightarrow> 5 | Some k \<Rightarrow> k);
          ascending = (contains ''bottom'' query_lower \<or> contains ''lowest'' query_lower);
          matched = find_target_column df query_lower;
          target_column =
            (if (matched = None \<or> matched = Some []) \<and> numeric_cols df \<noteq> []
             then Some (hd (numeric_cols df)) else matched)
      in case target_column of
           Some col \<Rightarrow>
             if col \<noteq> [] then
               (case select_n ascending n df col of
                  Inl e \<Rightarrow> Inl e
                | Inr ranked_data \<Rightarrow>
                    Inr [(''success'', VBool True),
                         (''result'', VList ranked_data),
                         (''message'', VStr ((if ascending then ''Bottom'' else ''Top'') @ '' ''
                                              @ digits n @ '' records by '' @ col)),
                         (''query_type'', VStr ''ranking'')])
             else Inr [(''error'', VStr ''Could not identify column for ranking'')]
         | None \<Rightarrow> Inr [(''error'', VStr ''Could not identify column for ranking'')])"

definition handle_filter_query :: "dataframe \<Rightarrow> string \<Rightarrow> pydict" where
  "handle_filter_query df query =
     [(''success'', VBool True),
      (''message'', VStr ''Filter functionality would require more specific query parsing''),
      (''suggestion'', VStr ''Please specify exact filter conditions''),
      (''query_type'', VStr ''filter'')]"

definition handle_general_query :: "data_agent \<Rightarrow> dataframe \<Rightarrow> string \<Rightarrow> pydict" where
  "handle_general_query self df query =
     [(''success'', VBool True),
      (''info'', (case current_dataset self of
                    None \<Rightarrow> VDict []
                  | Some name \<Rightarrow>
                      (case map_of (dataset_info self) name of
                         None \<Rightarrow> VDict [] | Some info \<Rightarrow> VDict info))),
      (''message'', VStr ''Here's general information about your dataset''),
      (''query_type'', VStr ''general'')]"

text \<open>The body of the \<open>try\<close> of \<open>process_query\<close>: the chain of keyword tests.\<close>

definition dispatch_query ::
  "data_lib \<Rightarrow> data_agent \<Rightarrow> dataframe \<Rightarrow> string \<Rightarrow> py_error + pydict" where
  "dispatch_query lib self df query =
     (let query_lower = lower query
      in if any_in [''total'', ''sum'', ''add''] query_lower
         then Inr (handle_aggregation_query lib df query OpSum)
         else if any_in [''average'', ''mean'', ''avg''] query_lower
         then Inr (handle_aggregation_query lib df query OpMean)
         else if any_in [''maximum'', ''max'', ''highest''] query_lower
         then Inr (handle_aggregation_query lib df query OpMax)
         else if any_in [''minimum'', ''min'', ''lowest''] query_lower
         then Inr (handle_aggregation_query lib df query OpMin)
         else if any_in [''count'', ''number of''] query_lower
         then Inr (handle_count_query df query)
         else if any_in [''plot'', ''chart'', ''graph'', ''visualize'', ''show''] query_lower
         then visualization_query lib df query
         else if any_in [''trend'', ''over time'', ''timeline''] query_lower
         then trend_query lib df query
         else if any_in [''top'', ''bottom'', ''rank''] query_lower
         then handle_ranking_query df query
         else if any_in [''filter'', ''where'', ''condition''] query_lower
         then Inr (handle_filter_query df query)
         else Inr (handle_general_query self df query))"

text \<open>
  The head of \<open>process_query\<close>: \<open>dataset_name\<close> defaults to \<open>current_dataset\<close>, and the
  frame is found only for a non-empty name that is a key of \<open>data_storage\<close>.
\<close>

definition lookup_dataset :: "data_agent \<Rightarrow> string option \<Rightarrow> dataframe option" where
  "lookup_dataset self dataset_name0 =
     (let dataset_name =
            (if dataset_name0 = None \<or> dataset_name0 = Some []
             then current_dataset self else dataset_name0)
      in case dataset_name of
           None \<Rightarrow> None
         | Some name \<Rightarrow> if name = [] then None else map_of (data_storage self) name)"

text \<open>
  \<open>DataIntelligenceAgent.process_query\<close>. The method assigns no attribute of the agent;
  the agent is returned next to the result so that this can be stated.
\<close>

definition process_query ::
  "data_lib \<Rightarrow> data_agent \<Rightarrow> string \<Rightarrow> string option \<Rightarrow> pydict \<times> data_agent" where
  "process_query lib self query dataset_name0 =
     (case lookup_dataset self dataset_name0 of
        None \<Rightarrow> ([(''error'', VStr ''No dataset loaded. Please upload a file first.'')], self)
      | Some df \<Rightarrow>
          (case dispatch_query lib self df query of
             Inr result \<Rightarrow> (result, self)
           | Inl e \<Rightarrow>
               ([(''error'', VStr (''Failed to process query: '' @ error_str e))], self)))"

text \<open>Sample values used to instantiate the theorems.\<close>

definition sample_lib :: data_lib where
  "sample_lib =
     \<lparr> series_mean = (\<lambda>xs. VNaN),
       visualization_query = (\<lambda>df q. Inl (OtherError ''no figure'')),
       trend_query = (\<lambda>df q. Inl (OtherError ''no figure'')) \<rparr>"

definition sample_df :: dataframe where
  "sample_df =
     [(''Product'', Object [''pen'', ''ink'', ''pad'', ''cap'', ''nib'']),
      (''Revenue'', Int64 [1200, 75, 400, 1200, 80])]"

definition sample_agent :: data_agent where
  "sample_agent =
     \<lparr> data_storage = [(''sales.csv'', sample_df)],
       current_dataset = Some ''sales.csv'',
       dataset_info = [] \<rparr>"

definition empty_agent :: data_agent where
  "empty_agent = \<lparr> data_storage = [], current_dataset = None, dataset_info = [] \<rparr>"

definition two_row_df :: dataframe where
  "two_row_df = [(''Revenue'', Int64 [10, 20])]"

definition two_row_agent :: data_agent where
  "two_row_agent =
     \<lparr> data_storage = [(''small.csv'', two_row_df)],
       current_dataset = Some ''small.csv'',
       dataset_info = [] \<rparr>"

text \<open>A dataset in which a column \<open>Total\<close> comes before the column \<open>Revenue\<close>.\<close>

definition total_first_df :: dataframe where
  "total_first_df =
     [(''Total'', Int64 [1, 2, 3, 4, 5]),
      (''Revenue'', Int64 [1200, 75, 400, 1200, 80])]"

definition total_first_agent :: data_agent where
  "total_first_agent =
     \<lparr> data_storage = [(''totals.csv'', total_first_df)],
       current_dataset = Some ''totals.csv'',
       dataset_info = [] \<rparr>"

section \<open>Research Assistant Agent\<close>

text \<open>
  The sentence tokenizer of NLTK (\<open>sent_tokenize\<close>), the embedding model and the FAISS
  index are libraries: the tokenizer is a parameter \<open>tok\<close> of the functions that call it,
  and the search of one document's index (embedding the query, normalising it and
  \<open>index.search\<close>) is a parameter that returns the scores and chunk indices found, or
  raises.
\<close>

subsection \<open>Strings and lists\<close>

text \<open>\<open>sep.join(xs)\<close>.\<close>

fun join :: "string \<Rightarrow> string list \<Rightarrow> string" where
  "join sep [] = []"
| "join sep [x] = x"
| "join sep (x # y # rest) = x @ sep @ join sep (y # rest)"

text \<open>\<open>s.strip()\<close>.\<close>

definition strip :: "string \<Rightarrow> string" where
  "strip s = rev (dropWhile is_space (rev (dropWhile is_space s)))"

text \<open>The slice \<open>xs[k:]\<close>, whose negative \<open>k\<close> counts from the end.\<close>

definition slice_from :: "'a list \<Rightarrow> int \<Rightarrow> 'a list" where
  "slice_from xs k = (if k < 0 then drop (nat (int (length xs) + k)) xs else drop (nat k) xs)"

text \<open>The item \<open>xs[i]\<close>: a negative index counts from the end, and an index out of range raises.\<close>

definition py_index :: "'a list \<Rightarrow> int \<Rightarrow> py_error + 'a" where
  "py_index items idx =
     (if 0 \<le> idx
      then (if idx < int (length items) then Inr (items ! nat idx)
            else Inl (IndexError ''list index out of range''))
      else (if - int (length items) \<le> idx then Inr (items ! nat (int (length items) + idx))
            else Inl (IndexError ''list index out of range'')))"

subsection \<open>Documents and chunks\<close>

record chunk =
  chunk_text :: string
  chunk_id :: nat
  sentence_count :: nat

subsection \<open>Chunk splitting\<close>

text \<open>
  \<open>_split_into_chunks\<close>. The state of the loop is \<open>(chunks, current_chunk,
  current_sentences)\<close>; \<open>close_chunk\<close> is the \<open>if current_chunk: chunks.append(...)\<close> that
  stands in the loop and after it. In \<open>-overlap//50\<close> the minus sign binds first.
\<close>

definition close_chunk :: "chunk list \<Rightarrow> string \<Rightarrow> string list \<Rightarrow> chunk list" where
  "close_chunk chunks current_chunk current_sentences =
     (if current_chunk \<noteq> []
      then chunks @ [\<lparr> chunk_text = strip current_chunk, chunk_id = length chunks,
                       sentence_count = length current_sentences \<rparr>]
      else chunks)"

definition overlap_sentences :: "int \<Rightarrow> string list \<Rightarrow> string list" where
  "overlap_sentences overlap current_sentences =
     (if overlap div 50 < int (length current_sentences)
      then slice_from current_sentences ((- overlap) div 50) else [])"

definition chunk_step ::
  "int \<Rightarrow> int \<Rightarrow> string \<Rightarrow> chunk list \<times> string \<times> string list
     \<Rightarrow> chunk list \<times> string \<times> string list" where
  "chunk_step chunk_size overlap sentence state =
     (case state of (chunks, current_chunk, current_sentences) \<Rightarrow>
        if int (length current_chunk) + int (length sentence) < chunk_size
        then (chunks, current_chunk @ '' '' @ sentence, current_sentences @ [sentence])
        else
          let ov = overlap_sentences overlap current_sentences
          in (close_chunk chunks current_chunk current_sentences,
              join '' '' ov @ '' '' @ sentence,
              ov @ [sentence]))"

definition split_into_chunks :: "(string \<Rightarrow> string list) \<Rightarrow> string \<Rightarrow> int \<Rightarrow> int \<Rightarrow> chunk list" where
  "split_into_chunks tok text chunk_size overlap =
     (case fold (chunk_step chunk_size overlap) (tok text) ([], [], []) of
        (chunks, current_chunk, current_sentences) \<Rightarrow>
          close_chunk chunks current_chunk current_sentences)"

text \<open>
  The same loop, keeping for every chunk the list \<open>current_sentences\<close> it was closed with
  and the number of those sentences that were carried over from the chunk before.
\<close>

definition close_group ::
  "(nat \<times> string list) list \<Rightarrow> string \<Rightarrow> nat \<Rightarrow> string list \<Rightarrow> (nat \<times> string list) list" where
  "close_group groups current_chunk carried current_sentences =
     (if current_chunk \<noteq> [] then groups @ [(carried, current_sentences)] else groups)"

definition group_step ::
  "int \<Rightarrow> int \<Rightarrow> string \<Rightarrow> (nat \<times> string list) list \<times> string \<times> nat \<times> string list
     \<Rightarrow> (nat \<times> string list) list \<times> string \<times> nat \<times> string list" where
  "group_step chunk_size overlap sentence state =
     (case state of (groups, current_chunk, carried, current_sentences) \<Rightarrow>
        if int (length current_chunk) + int (length sentence) < chunk_size
        then (groups, current_chunk @ '' '' @ sentence, carried, current_sentences @ [sentence])
        else
          let ov = overlap_sentences overlap current_sentences
          in (close_group groups current_chunk carried current_sentences,
              join '' '' ov @ '' '' @ sentence,
              length ov,
              ov @ [sentence]))"

definition sentence_groups :: "int \<Rightarrow> int \<Rightarrow> string list \<Rightarrow> (nat \<times> string list) list" where
  "sentence_groups chunk_size overlap sentences =
     (case fold (group_step chunk_size overlap) sentences ([], [], 0, []) of
        (groups, current_chunk, carried, current_sentences) \<Rightarrow>
          close_group groups current_chunk carried current_sentences)"

subsection \<open>Extractive summary\<close>

text \<open>
  \<open>_generate_summary\<close>. The score of sentence \<open>i\<close> of \<open>n\<close>; \<open>n * 0.3\<close> and \<open>n * 0.7\<close> are float
  products, compared exactly with the integer \<open>i\<close>.
\<close>

definition sentence_score :: "nat \<Rightarrow> nat \<Rightarrow> string \<Rightarrow> int" where
  "sentence_score n i sentence =
     (if of_nat i < fmul (fl (of_nat n)) (lit 3 10) then 2 else 0)
     + (if fmul (fl (of_nat n)) (lit 7 10) < of_nat i then 1 else 0)
     + (if 50 < length sentence \<and> length sentence < 200 then 1 else 0)"

text \<open>
  The triples \<open>(score, i, sentence)\<close> are sorted with \<open>reverse=True\<close>: descending in the
  score and then in the index; the indices differ, so no two sentences are compared.
\<close>

definition sentence_scores :: "string list \<Rightarrow> (int \<times> nat \<times> string) list" where
  "sentence_scores sentences =
     map (\<lambda>i. (sentence_score (length sentences) i (sentences ! i), i, sentences ! i))
         [0..<length sentences]"

definition sort_reverse :: "(int \<times> nat \<times> string) list \<Rightarrow> (int \<times> nat \<times> string) list" where
  "sort_reverse scored = rev (sort_key (\<lambda>t. (fst t, fst (snd t))) scored)"

definition generate_summary :: "(string \<Rightarrow> string list) \<Rightarrow> string \<Rightarrow> nat \<Rightarrow> string" where
  "generate_summary tok text max_sentences =
     (let sentences = tok text
      in if length sentences \<le> max_sentences then text
         else
           let selected_sentences =
                 sort_key (\<lambda>t. fst (snd t))
                   (take max_sentences (sort_reverse (sentence_scores sentences)))
           in join '' '' (map (\<lambda>t. snd (snd t)) selected_sentences))"

subsection \<open>Retrieval\<close>

record document =
  file_name :: string
  title :: string
  full_text :: string
  chunks :: "chunk list"
  summary :: string
  doc_keywords :: "string list"
  metadata :: pydict

record research_agent =
  documents :: "(string \<times> document) list"

text \<open>One retrieved chunk of \<open>answer_question\<close> and of \<open>search_documents\<close>.\<close>

definition answer_entry :: "string \<Rightarrow> chunk \<Rightarrow> rat \<Rightarrow> pydict" where
  "answer_entry doc_name c score =
     [(''text'', VStr (chunk_text c)),
      (''score'', VFloat score),
      (''chunk_id'', VInt (int (chunk_id c))),
      (''document'', VStr doc_name)]"

definition search_entry :: "string \<Rightarrow> document \<Rightarrow> chunk \<Rightarrow> rat \<Rightarrow> pydict" where
  "search_entry doc_name doc c score =
     [(''document'', VStr doc_name),
      (''title'', VStr (title doc)),
      (''text'', VStr (take 200 (chunk_text c) @ ''...'')),
      (''score'', VFloat score),
      (''chunk_id'', VInt (int (chunk_id c)))]"

text \<open>
  The loop over \<open>zip(scores[0], indices[0])\<close> with its guard \<open>idx < len(doc['chunks'])\<close>;
  \<open>entry\<close> builds the dictionary that is appended.
\<close>

fun collect_chunks :: "(chunk \<Rightarrow> rat \<Rightarrow> pydict) \<Rightarrow> chunk list \<Rightarrow> (rat \<times> int) list
                        \<Rightarrow> py_error + pydict list" where
  "collect_chunks entry cs [] = Inr []"
| "collect_chunks entry cs ((score, idx) # hits) =
     (if idx < int (length cs)
      then (case py_index cs idx of
              Inl e \<Rightarrow> Inl e
            | Inr c \<Rightarrow>
                (case collect_chunks entry cs hits of
                   Inl e \<Rightarrow> Inl e
                 | Inr found \<Rightarrow> Inr (entry c score # found)))
      else collect_chunks entry cs hits)"

text \<open>A tokenizer result and a text used to instantiate the theorems on the summary.\<close>

definition four_sentences :: "string list" where
  "four_sentences =
     [''Tea is hot.'', ''Ice is cold.'',
      ''This third sentence is long enough to earn the bonus for length.'',
      ''The end.'']"

definition four_text :: string where
  "four_text = join '' '' four_sentences"

record research_lib =
  sent_tokenize :: "string \<Rightarrow> string list"
  index_search :: "string \<Rightarrow> string \<Rightarrow> nat \<Rightarrow> py_error + (rat \<times> int) list"

text \<open>
  The loop over the documents to search: the index of each is searched with the query
  and \<open>top_k\<close>, and the chunks found are appended to \<open>all_results\<close>. \<open>entry\<close> takes the
  name and the document.
\<close>

fun search_all ::
  "research_lib \<Rightarrow> (string \<Rightarrow> document \<Rightarrow> chunk \<Rightarrow> rat \<Rightarrow> pydict) \<Rightarrow> (string \<times> document) list
     \<Rightarrow> string \<Rightarrow> nat \<Rightarrow> py_error + pydict list" where
  "search_all lib entry [] query top_k = Inr []"
| "search_all lib entry ((doc_name, doc) # rest) query top_k =
     (case index_search lib doc_name query top_k of
        Inl e \<Rightarrow> Inl e
      | Inr hits \<Rightarrow>
          (case collect_chunks (entry doc_name doc) (chunks doc) hits of
             Inl e \<Rightarrow> Inl e
           | Inr found \<Rightarrow>
               (case search_all lib entry rest query top_k of
                  Inl e \<Rightarrow> Inl e
                | Inr others \<Rightarrow> Inr (found @ others))))"

text \<open>\<open>all_results.sort(key=lambda x: x["score"], reverse=True)\<close>: descending and stable.\<close>

definition entry_score :: "pydict \<Rightarrow> rat" where
  "entry_score d = (case dict_get d ''score'' of VFloat x \<Rightarrow> x | _ \<Rightarrow> 0)"

definition sort_by_score :: "pydict list \<Rightarrow> pydict list" where
  "sort_by_score results = rev (sort_key entry_score (rev results))"

definition entry_text :: "pydict \<Rightarrow> string" where
  "entry_text d = (case dict_get d ''text'' of VStr s \<Rightarrow> s | _ \<Rightarrow> [])"

text \<open>\<open>_generate_answer\<close>: the three tiers of patterns, then the first sentence.\<close>

definition generate_answer :: "(string \<Rightarrow> string list) \<Rightarrow> string \<Rightarrow> string \<Rightarrow> string" where
  "generate_answer tok question context_text =
     (let question_lower = lower question;
          sentences = tok context_text;
          matched =
            (if any_in [''what is'', ''define'', ''definition''] question_lower
             then find (\<lambda>s. any_in [''is'', ''are'', ''defined'', ''refers''] (lower s)) sentences
             else if any_in [''how'', ''method'', ''approach''] question_lower
             then find (\<lambda>s. any_in [''method'', ''approach'', ''technique'', ''process'']
                                 (lower s)) sentences
             else if any_in [''result'', ''conclusion'', ''finding''] question_lower
             then find (\<lambda>s. any_in [''result'', ''conclusion'', ''found'', ''showed'']
                                 (lower s)) sentences
             else None)
      in case matched of
           Some s \<Rightarrow> s
         | None \<Rightarrow>
             (case sentences of
                s # _ \<Rightarrow> s
              | [] \<Rightarrow> ''I couldn't find a specific answer to your question in the loaded documents.''))"

definition answer_question ::
  "research_lib \<Rightarrow> research_agent \<Rightarrow> string \<Rightarrow> string option \<Rightarrow> nat \<Rightarrow> pydict" where
  "answer_question lib self question document_name top_k =
     (if documents self = [] then [(''error'', VStr ''No documents loaded'')]
      else
        let documents_to_search =
              (case document_name of
                 None \<Rightarrow> documents self
               | Some name \<Rightarrow>
                   (case map_of (documents self) name of
                      Some doc \<Rightarrow> if name \<noteq> [] then [(name, doc)] else documents self
                    | None \<Rightarrow> documents self))
        in case search_all lib (\<lambda>name doc. answer_entry name) documents_to_search question top_k of
             Inl e \<Rightarrow> [(''error'', VStr (''Failed to answer question: '' @ error_str e))]
           | Inr all_results \<Rightarrow>
               let top_results = take top_k (sort_by_score all_results);
                   context_text = join '' '' (map entry_text top_results);
                   answer = generate_answer (sent_tokenize lib) question context_text
               in [(''success'', VBool True),
                   (''answer'', VStr answer),
                   (''relevant_chunks'', VList (map VDict top_results)),
                   (''question'', VStr question),
                   (''documents_searched'', VList (map (\<lambda>d. VStr (fst d)) documents_to_search))])"

definition search_documents :: "research_lib \<Rightarrow> research_agent \<Rightarrow> string \<Rightarrow> nat \<Rightarrow> pydict" where
  "search_documents lib self query top_k =
     (if documents self = [] then [(''error'', VStr ''No documents loaded'')]
      else
        case search_all lib search_entry (documents self) query top_k of
          Inl e \<Rightarrow> [(''error'', VStr (''Search failed: '' @ error_str e))]
        | Inr all_results \<Rightarrow>
            [(''success'', VBool True),
             (''query'', VStr query),
             (''results'', VList (map VDict (take top_k (sort_by_score all_results)))),
             (''total_results'', VInt (int (length all_results)))])"

definition summarize_document :: "research_agent \<Rightarrow> string \<Rightarrow> pydict" where
  "summarize_document self document_name =
     (case map_of (documents self) document_name of
        None \<Rightarrow> [(''error'', VStr (''Document '' @ document_name @ '' not found''))]
      | Some doc \<Rightarrow>
          [(''success'', VBool True),
           (''document_name'', VStr document_name),
           (''title'', VStr (title doc)),
           (''summary'', VStr (summary doc)),
           (''keywords'', VList (map VStr (doc_keywords doc))),
           (''metadata'', VDict (metadata doc))])"

text \<open>Sample values: a document of two chunks and an index that also returns 2, 7 and -1.\<close>

definition sample_chunks :: "chunk list" where
  "sample_chunks =
     [\<lparr> chunk_text = ''Tea is hot. Ice is cold.'', chunk_id = 0, sentence_count = 2 \<rparr>,
      \<lparr> chunk_text = ''Ice is cold. The end.'', chunk_id = 1, sentence_count = 2 \<rparr>]"

definition sample_hits :: "(rat \<times> int) list" where
  "sample_hits = [(9 / 10, 1), (1 / 2, 2), (2 / 5, 0), (3 / 10, 7), (- 1, - 1)]"

definition sample_doc :: document where
  "sample_doc =
     \<lparr> file_name = ''a.pdf'', title = ''Tea and ice'',
       full_text = ''Tea is hot. Ice is cold. The end.'', chunks = sample_chunks,
       summary = ''Tea is hot. Ice is cold. The end.'', doc_keywords = [],
       metadata = [] \<rparr>"

definition sample_research_agent :: research_agent where
  "sample_research_agent = \<lparr> documents = [(''a.pdf'', sample_doc)] \<rparr>"

definition sample_research_lib :: research_lib where
  "sample_research_lib =
     \<lparr> sent_tokenize = (\<lambda>t. [t]), index_search = (\<lambda>name query top_k. Inr sample_hits) \<rparr>"

section \<open>Orchestrator: routing\<close>

record orchestrator =
  data_agent :: data_agent
  research_agent :: research_agent

text \<open>
  What the orchestrator takes from outside the model: the libraries of the two agents,
  the two loaders (they read files; each returns its result dictionary and the agent
  after the call), and the help text, which has characters outside the modelled range.
\<close>

record orchestrator_lib =
  data_lib :: data_lib
  research_lib :: research_lib
  load_data :: "pyval \<Rightarrow> pyval \<Rightarrow> data_agent \<Rightarrow> pydict \<times> data_agent"
  load_pdf :: "pyval \<Rightarrow> pyval \<Rightarrow> research_agent \<Rightarrow> pydict \<times> research_agent"
  help_message :: pydict

text \<open>\<open>d[k] = v\<close> on a dictionary and \<open>x[k]\<close> on an object.\<close>

fun dict_set :: "pydict \<Rightarrow> string \<Rightarrow> pyval \<Rightarrow> pydict" where
  "dict_set [] k v = [(k, v)]"
| "dict_set (p # ps) k v = (if fst p = k then (k, v) # ps else p # dict_set ps k v)"

definition py_getitem :: "pyval \<Rightarrow> string \<Rightarrow> py_error + pyval" where
  "py_getitem x k =
     (case x of
        VDict d \<Rightarrow> (case map_of d k of Some v \<Rightarrow> Inr v | None \<Rightarrow> Inl (KeyError k))
      | _ \<Rightarrow> Inl (TypeError ''object is not subscriptable''))"

text \<open>\<open>context.get(key)\<close> of an optional context, after the test \<open>context and ...\<close>.\<close>

definition context_get :: "pydict option \<Rightarrow> string \<Rightarrow> pyval" where
  "context_get context key =
     (case context of None \<Rightarrow> VNone | Some c \<Rightarrow> dict_get c key)"

definition route_to_data_agent ::
  "orchestrator_lib \<Rightarrow> orchestrator \<Rightarrow> string \<Rightarrow> pydict option \<Rightarrow> pydict \<times> orchestrator" where
  "route_to_data_agent lib self query context =
     (let answer = (\<lambda>agent.
            case process_query (data_lib lib) agent query None of
              (result, agent') \<Rightarrow>
                (dict_set result ''agent'' (VStr ''data_intelligence''),
                 self\<lparr>data_agent := agent'\<rparr>))
      in if data_storage (data_agent self) = []
            \<and> truthy (context_get context ''pending_data_file'')
         then
           (case py_getitem (context_get context ''pending_data_file'') ''path'' of
              Inl e \<Rightarrow> ([(''error'', VStr (''Data agent failed: '' @ error_str e))], self)
            | Inr file_path \<Rightarrow>
                (case py_getitem (context_get context ''pending_data_file'') ''name'' of
                   Inl e \<Rightarrow> ([(''error'', VStr (''Data agent failed: '' @ error_str e))], self)
                 | Inr name \<Rightarrow>
                     (case load_data lib file_path name (data_agent self) of
                        (load_result, agent') \<Rightarrow>
                          if map_of load_result ''error'' \<noteq> None
                          then (load_result, self\<lparr>data_agent := agent'\<rparr>)
                          else answer agent')))
         else answer (data_agent self))"

definition research_answer :: "orchestrator_lib \<Rightarrow> research_agent \<Rightarrow> string \<Rightarrow> pydict" where
  "research_answer lib agent query =
     (let result =
            (if any_in [''summarize'', ''summary'', ''abstract''] (lower query)
             then (case documents agent of
                     d # _ \<Rightarrow> summarize_document agent (fst d)
                   | [] \<Rightarrow> [(''error'', VStr ''No documents loaded for summarization'')])
             else if any_in [''search'', ''find'', ''locate''] (lower query)
             then search_documents (research_lib lib) agent query 5
             else answer_question (research_lib lib) agent query None 3)
      in dict_set result ''agent'' (VStr ''research_assistant''))"

definition route_to_research_agent ::
  "orchestrator_lib \<Rightarrow> orchestrator \<Rightarrow> string \<Rightarrow> pydict option \<Rightarrow> pydict \<times> orchestrator" where
  "route_to_research_agent lib self query context =
     (if documents (research_agent self) = []
         \<and> truthy (context_get context ''pending_pdf_file'')
      then
        (case py_getitem (context_get context ''pending_pdf_file'') ''path'' of
           Inl e \<Rightarrow> ([(''error'', VStr (''Research agent failed: '' @ error_str e))], self)
         | Inr file_path \<Rightarrow>
             (case py_getitem (context_get context ''pending_pdf_file'') ''name'' of
                Inl e \<Rightarrow> ([(''error'', VStr (''Research agent failed: '' @ error_str e))], self)
              | Inr name \<Rightarrow>
                  (case load_pdf lib file_path name (research_agent self) of
                     (load_result, agent') \<Rightarrow>
                       if map_of load_result ''error'' \<noteq> None
                       then (load_result, self\<lparr>research_agent := agent'\<rparr>)
                       else (research_answer lib agent' query,
                             self\<lparr>research_agent := agent'\<rparr>))))
      else (research_answer lib (research_agent self) query, self))"

text \<open>The two results of \<open>_handle_ambiguous_query\<close> that do not come from an agent.\<close>

definition clarification_prompt :: "orchestrator \<Rightarrow> string \<Rightarrow> pydict" where
  "clarification_prompt self query =
     [(''ambiguous'', VBool True),
      (''message'', VStr ''Your query could apply to both data analysis and research documents. Please specify which you're interested in.''),
      (''suggestions'', VList [VStr (''For data analysis: '' @ query @ '' (from data files)''),
                               VStr (''For research: '' @ query @ '' (from documents)'')]),
      (''available_data'', VList (map (\<lambda>d. VStr (fst d)) (data_storage (data_agent self)))),
      (''available_documents'',
         VList (map (\<lambda>d. VStr (fst d)) (documents (research_agent self))))]"

definition nothing_loaded :: pydict where
  "nothing_loaded =
     [(''error'', VStr ''No data files or documents loaded. Please upload files first.''),
      (''suggestion'', VStr ''Upload CSV/Excel files for data analysis or PDF files for research queries'')]"

definition handle_ambiguous_query ::
  "orchestrator_lib \<Rightarrow> orchestrator \<Rightarrow> string \<Rightarrow> pydict option \<Rightarrow> pydict \<times> orchestrator" where
  "handle_ambiguous_query lib self query context =
     (let has_data = (data_storage (data_agent self) \<noteq> []);
          has_docs = (documents (research_agent self) \<noteq> [])
      in if has_data \<and> \<not> has_docs then route_to_data_agent lib self query context
         else if has_docs \<and> \<not> has_data then route_to_research_agent lib self query context
         else if has_data \<and> has_docs then (clarification_prompt self query, self)
         else (nothing_loaded, self))"

definition get_system_status :: "orchestrator \<Rightarrow> pydict" where
  "get_system_status self =
     [(''success'', VBool True),
      (''system_status'',
         VDict [(''loaded_datasets'',
                   VList (map (\<lambda>d. VStr (fst d)) (data_storage (data_agent self)))),
                (''loaded_documents'',
                   VList (map (\<lambda>d. VStr (fst d)) (documents (research_agent self)))),
                (''data_agent_ready'', VBool (0 < length (data_storage (data_agent self)))),
                (''research_agent_ready'',
                   VBool (0 < length (documents (research_agent self))))])]"

definition orchestrator_general_query ::
  "orchestrator_lib \<Rightarrow> orchestrator \<Rightarrow> string \<Rightarrow> pydict option \<Rightarrow> pydict" where
  "orchestrator_general_query lib self query context =
     (if any_in [''help'', ''what can you do'', ''capabilities''] (lower query)
      then help_message lib
      else if any_in [''status'', ''what is loaded'', ''files''] (lower query)
      then get_system_status self
      else [(''message'', VStr ''I'm not sure how to help with that. Try asking about data analysis, research documents, or type 'help' for more information.''),
            (''suggestions'', VList [VStr ''Upload a CSV/Excel file and ask data questions'',
                                     VStr ''Upload a PDF document and ask research questions'',
                                     VStr ''Type 'help' to see what I can do''])])"

fun query_type_value :: "QueryType \<Rightarrow> string" where
  "query_type_value DATA_ANALYSIS = ''data_analysis''"
| "query_type_value RESEARCH_QUERY = ''research_query''"
| "query_type_value GENERAL = ''general''"
| "query_type_value AMBIGUOUS = ''ambiguous''"

fun get_agent_name :: "QueryType \<Rightarrow> string" where
  "get_agent_name DATA_ANALYSIS = ''Data Intelligence Agent''"
| "get_agent_name RESEARCH_QUERY = ''Research Assistant Agent''"
| "get_agent_name GENERAL = ''Orchestrator Agent''"
| "get_agent_name AMBIGUOUS = ''Orchestrator Agent''"

definition orchestrator_info :: "QueryType \<Rightarrow> rat \<Rightarrow> string \<Rightarrow> pyval" where
  "orchestrator_info query_type confidence reasoning =
     VDict [(''query_type'', VStr (query_type_value query_type)),
            (''confidence'', VFloat confidence),
            (''reasoning'', VStr reasoning),
            (''agent_used'', VStr (get_agent_name query_type))]"

text \<open>
  \<open>OrchestratorAgent.process_query\<close>. Every call it makes returns a dictionary, so
  its own \<open>except\<close> branch is never entered.
\<close>

definition orchestrator_process_query ::
  "orchestrator_lib \<Rightarrow> orchestrator \<Rightarrow> string \<Rightarrow> pydict option \<Rightarrow> pydict \<times> orchestrator" where
  "orchestrator_process_query lib self query context =
     (case classify_query query context of
        (query_type, confidence, reasoning) \<Rightarrow>
          (case (case query_type of
                   DATA_ANALYSIS \<Rightarrow> route_to_data_agent lib self query context
                 | RESEARCH_QUERY \<Rightarrow> route_to_research_agent lib self query context
                 | AMBIGUOUS \<Rightarrow> handle_ambiguous_query lib self query context
                 | GENERAL \<Rightarrow> (orchestrator_general_query lib self query context, self))
           of (result, self') \<Rightarrow>
                (dict_set result ''orchestrator_info''
                   (orchestrator_info query_type confidence reasoning),
                 self')))"

text \<open>Sample values: an orchestrator with one dataset and no document, and a context.\<close>

definition sample_orchestrator_lib :: orchestrator_lib where
  "sample_orchestrator_lib =
     \<lparr> data_lib = sample_lib, research_lib = sample_research_lib,
       load_data = (\<lambda>p n a. ([(''error'', VStr ''no file'')], a)),
       load_pdf = (\<lambda>p n a. ([(''error'', VStr ''no file'')], a)),
       help_message = [] \<rparr>"

definition data_only :: orchestrator where
  "data_only = \<lparr> data_agent = sample_agent, research_agent = \<lparr> documents = [] \<rparr> \<rparr>"

definition docs_only :: orchestrator where
  "docs_only = \<lparr> data_agent = empty_agent, research_agent = sample_research_agent \<rparr>"

definition both_loaded :: orchestrator where
  "both_loaded = \<lparr> data_agent = sample_agent, research_agent = sample_research_agent \<rparr>"

definition loaded_context :: "pydict option" where
  "loaded_context =
     Some [(''loaded_datasets'', VList [VStr ''sales.csv'']),
           (''loaded_documents'', VList [VStr ''a.pdf''])]"

text \<open>Sentences used to instantiate the theorems on chunk splitting.\<close>

definition five_sentences :: "string list" where
  "five_sentences = [''Aa.'', ''Bb.'', ''Cc.'', ''Dd.'', ''Ee.'']"

definition long_a :: string where
  "long_a = replicate 300 CHR ''a''"

definition long_b :: string where
  "long_b = replicate 300 CHR ''b''"

definition long_c :: string where
  "long_c = replicate 600 CHR ''c''"

section \<open>Reference computations\<close>

text \<open>
  The definitions of this section follow the words of the specification; the
  theorems below compare them with the functions translated from the source.
\<close>

text \<open>The weight of a keyword: the number of its whitespace-separated words.\<close>

definition keyword_weight :: "string \<Rightarrow> int" where
  "keyword_weight keyword = int (length (split keyword))"

text \<open>
  The score of a sub-category: the sum of the weights of its keywords that occur in the
  lowercased query, divided by the number of its keywords.
\<close>

definition ref_subcategory_score :: "string \<Rightarrow> string list \<Rightarrow> rat" where
  "ref_subcategory_score q kws =
     fdiv (of_int (sum_list (map keyword_weight (filter (\<lambda>k. contains k q) kws))))
          (of_nat (length kws))"

text \<open>
  The score of a lexicon: the mean of the scores of its non-empty sub-categories, summed
  in the order of the lexicon (zero when there is none).
\<close>

definition ref_lexicon_score :: "string \<Rightarrow> (string \<times> string list) list \<Rightarrow> rat" where
  "ref_lexicon_score q lexicon =
     (let scores = map (\<lambda>sub. ref_subcategory_score q (snd sub))
                       (filter (\<lambda>sub. snd sub \<noteq> []) lexicon)
      in if scores = [] then 0 else fdiv (foldl fadd 0 scores) (of_nat (length scores)))"

text \<open>The bonus 0.2 of a context entry that is present and non-empty.\<close>

definition ref_bonus :: "pydict option \<Rightarrow> string \<Rightarrow> rat" where
  "ref_bonus context key =
     (case context of
        None \<Rightarrow> 0
      | Some c \<Rightarrow> if truthy (dict_get c key) then lit 2 10 else 0)"

text \<open>The fixed decision rule on the two biased scores.\<close>

definition ref_classify :: "string \<Rightarrow> pydict option \<Rightarrow> QueryType \<times> rat" where
  "ref_classify query context =
     (let d = fadd (ref_lexicon_score (lower query) data_keywords)
                   (ref_bonus context ''loaded_datasets'');
          r = fadd (ref_lexicon_score (lower query) research_keywords)
                   (ref_bonus context ''loaded_documents'')
      in if d > r \<and> d > lit 3 10 then (DATA_ANALYSIS, py_min (lit 8 10) d)
         else if r > d \<and> r > lit 3 10 then (RESEARCH_QUERY, py_min (lit 8 10) r)
         else if \<bar>fsub d r\<bar> < lit 1 10 \<and> py_max d r > lit 2 10 then (AMBIGUOUS, lit 5 10)
         else (GENERAL, lit 3 10))"

text \<open>
  The order of \<open>nlargest\<close> on the rows of a column: row \<open>i\<close> comes before row \<open>j\<close> when its
  value is larger, or when the values are equal and row \<open>i\<close> was seen first; \<open>nsmallest\<close>
  has the smaller value first.
\<close>

definition before_desc :: "int list \<Rightarrow> nat \<Rightarrow> nat \<Rightarrow> bool" where
  "before_desc xs i j = (xs ! j < xs ! i \<or> (xs ! i = xs ! j \<and> i < j))"

definition before_asc :: "int list \<Rightarrow> nat \<Rightarrow> nat \<Rightarrow> bool" where
  "before_asc xs i j = (xs ! i < xs ! j \<or> (xs ! i = xs ! j \<and> i < j))"

text \<open>
  \<open>ps\<close> are the \<open>n\<close> extreme rows of a column of \<open>len\<close> rows (all rows when there are fewer
  than \<open>n\<close>): row positions listed in the order \<open>before\<close>, each of them before every row
  that is left out.
\<close>

definition extreme_rows :: "(nat \<Rightarrow> nat \<Rightarrow> bool) \<Rightarrow> int \<Rightarrow> nat \<Rightarrow> nat list \<Rightarrow> bool" where
  "extreme_rows before n len ps =
     (length ps = min (nat n) len \<and> set ps \<subseteq> {0..<len} \<and> sorted_wrt before ps
      \<and> (\<forall>i\<in>set ps. \<forall>j\<in>{0..<len}. j \<notin> set ps \<longrightarrow> before i j))"

text \<open>The result of a ranking query that lists the rows at the positions \<open>ps\<close>.\<close>

definition ranking_result :: "dataframe \<Rightarrow> bool \<Rightarrow> int \<Rightarrow> string \<Rightarrow> nat list \<Rightarrow> pydict" where
  "ranking_result df ascending n col ps =
     [(''success'', VBool True),
      (''result'', VList (map (row_record df) ps)),
      (''message'', VStr ((if ascending then ''Bottom'' else ''Top'') @ '' '' @ digits n
                           @ '' records by '' @ col)),
      (''query_type'', VStr ''ranking'')]"

text \<open>
  Sentence \<open>i\<close> outranks sentence \<open>j\<close> in the summary when its score is higher, or when the
  scores are equal and it stands later in the document.
\<close>

definition outranks :: "string list \<Rightarrow> nat \<Rightarrow> nat \<Rightarrow> bool" where
  "outranks ss i j =
     (sentence_score (length ss) j (ss ! j) < sentence_score (length ss) i (ss ! i)
      \<or> (sentence_score (length ss) j (ss ! j) = sentence_score (length ss) i (ss ! i)
          \<and> j < i))"

text \<open>
  The summary as the specification words it: the \<open>max_sentences\<close> sentences of highest
  score, a tie going to the earlier sentence, joined in document order.
\<close>

definition ref_summary_earlier :: "(string \<Rightarrow> string list) \<Rightarrow> string \<Rightarrow> nat \<Rightarrow> string" where
  "ref_summary_earlier tok text max_sentences =
     (let ss = tok text
      in if length ss \<le> max_sentences then text
         else join '' ''
                (map (\<lambda>i. ss ! i)
                   (sort (take max_sentences
                            (sort_key (\<lambda>i. - sentence_score (length ss) i (ss ! i))
                               [0..<length ss])))))"

text \<open>
  A group is the list of sentences of one chunk together with the number of its leading
  sentences that were carried over from the chunk before. \<open>new_sentences\<close> are the
  sentences of a group without those carried over, and \<open>group_chunk\<close> is the chunk
  that holds a group: its sentences joined by single spaces and stripped.
\<close>

definition new_sentences :: "nat \<times> string list \<Rightarrow> string list" where
  "new_sentences g = drop (fst g) (snd g)"

definition group_chunk :: "nat \<Rightarrow> nat \<times> string list \<Rightarrow> chunk" where
  "group_chunk k g =
     \<lparr> chunk_text = strip (join '' '' (snd g)), chunk_id = k, sentence_count = length (snd g) \<rparr>"

definition chunks_of :: "(nat \<times> string list) list \<Rightarrow> chunk list" where
  "chunks_of gs = map (\<lambda>k. group_chunk k (gs ! k)) [0..<length gs]"

text \<open>
  The overlap between a chunk and the next one: the last sentence of a chunk of more
  than one sentence is carried over, and nothing is carried over from a chunk of one
  sentence.
\<close>

definition overlap_link :: "nat \<times> string list \<Rightarrow> nat \<times> string list \<Rightarrow> bool" where
  "overlap_link prev nxt =
     (if 1 < length (snd prev) then fst nxt = 1 \<and> take 1 (snd nxt) = [last (snd prev)]
      else fst nxt = 0)"

fun overlap_chain :: "(nat \<times> string list) list \<Rightarrow> bool" where
  "overlap_chain (g # h # rest) = (overlap_link g h \<and> overlap_chain (h # rest))"
| "overlap_chain gs = True"

section \<open>Query classification: the keyword scores and the decision rule\<close>

lemma fold_keyword_step:
  "fold (keyword_step q) kws acc
     = acc + sum_list (map keyword_weight (filter (\<lambda>k. contains k q) kws))"
  by (induction kws arbitrary: acc) (simp_all add: keyword_step_def keyword_weight_def)

lemma category_step_pair:
  "category_step q (c, kws) (s, w)
     = (if kws \<noteq> [] then (fadd s (ref_subcategory_score q kws), w + 1) else (s, w))"
  by (simp add: category_step_def ref_subcategory_score_def fold_keyword_step)

lemma fold_category_step:
  "fold (category_step q) lexicon (s, w)
     = (foldl fadd s (map (\<lambda>sub. ref_subcategory_score q (snd sub))
                          (filter (\<lambda>sub. snd sub \<noteq> []) lexicon)),
        w + int (length (filter (\<lambda>sub. snd sub \<noteq> []) lexicon)))"
proof (induction lexicon arbitrary: s w)
  case Nil
  then show ?case by simp
next
  case (Cons sub rest)
  obtain c kws where sub: "sub = (c, kws)" by (cases sub)
  show ?case
    by (simp add: sub Cons.IH category_step_pair)
qed

lemma calculate_keyword_score_ref:
  "calculate_keyword_score q lexicon = ref_lexicon_score q lexicon"
  by (simp add: calculate_keyword_score_def ref_lexicon_score_def fold_category_step Let_def)

lemma zero_plus_bonus: "fadd 0 (lit 2 10) = lit 2 10"
  by code_simp

lemma get_context_bias_ref:
  "get_context_bias context
     = (ref_bonus context ''loaded_datasets'', ref_bonus context ''loaded_documents'')"
  by (cases "context") (simp_all add: get_context_bias_def ref_bonus_def dict_get_def zero_plus_bonus)

text \<open>
  C2. For a query whose lowercased text holds no tabular and no document format token,
  the category and the confidence returned by the router are those of the reference
  computation: per lexicon the mean over the non-empty sub-categories of the summed
  keyword weights divided by the number of keywords, plus 0.2 for a non-empty context
  entry, then the fixed rule with the thresholds 0.3, 0.1, 0.2 and the confidences
  min(0.8, score), 0.5 and 0.3. All arithmetic is the binary64 arithmetic of the source.
\<close>

theorem classify_query_reference:
  assumes "\<not> any_in tabular_tokens (lower query)"
    and "\<not> any_in document_tokens (lower query)"
  shows "(case classify_query query context of (category, confidence, reasoning) \<Rightarrow>
            (category, confidence)) = ref_classify query context"
  using assms
  by (simp add: classify_query_def ref_classify_def calculate_keyword_score_ref
      get_context_bias_ref Let_def)

theorem classify_query_reference_witness:
  "\<not> any_in tabular_tokens (lower ''Show me a bar chart of sales'')
   \<and> \<not> any_in document_tokens (lower ''Show me a bar chart of sales'')
   \<and> (case classify_query ''Show me a bar chart of sales''
               (Some [(''loaded_datasets'', VList [VStr ''sales'']),
                      (''loaded_documents'', VList [])])
        of (category, confidence, reasoning) \<Rightarrow> (category, confidence))
       = ref_classify ''Show me a bar chart of sales''
           (Some [(''loaded_datasets'', VList [VStr ''sales'']),
                  (''loaded_documents'', VList [])])
   \<and> fst (ref_classify ''Show me a bar chart of sales''
           (Some [(''loaded_datasets'', VList [VStr ''sales'']),
                  (''loaded_documents'', VList [])])) = DATA_ANALYSIS"
proof -
  have h1: "\<not> any_in tabular_tokens (lower ''Show me a bar chart of sales'')"
    by code_simp
  have h2: "\<not> any_in document_tokens (lower ''Show me a bar chart of sales'')"
    by code_simp
  have h3: "fst (ref_classify ''Show me a bar chart of sales''
           (Some [(''loaded_datasets'', VList [VStr ''sales'']),
                  (''loaded_documents'', VList [])])) = DATA_ANALYSIS"
    by code_simp
  from classify_query_reference [OF h1 h2] h1 h2 h3 show ?thesis
    by blast
qed

text \<open>
  C5. A query whose lowercased text contains one of the tabular format tokens
  \<open>.csv\<close>, \<open>.xlsx\<close>, \<open>.xls\<close>, \<open>spreadsheet\<close>, \<open>excel\<close> is classified as a data-analysis
  query with confidence 0.9, whatever else it contains: the tabular check comes first.
\<close>

theorem tabular_fast_path_first:
  assumes "contains ''.csv'' (lower query) \<or> contains ''.xlsx'' (lower query)
           \<or> contains ''.xls'' (lower query) \<or> contains ''spreadsheet'' (lower query)
           \<or> contains ''excel'' (lower query)"
  shows "classify_query query context
           = (DATA_ANALYSIS, lit 9 10, ''Query mentions data file formats'')"
  using assms
  by (auto simp add: classify_query_def any_in_def tabular_tokens_def Let_def)

theorem tabular_fast_path_first_witness:
  "contains ''.csv'' (lower ''Convert this .CSV to .pdf'')
   \<and> contains ''.pdf'' (lower ''Convert this .CSV to .pdf'')
   \<and> classify_query ''Convert this .CSV to .pdf'' None
         = (DATA_ANALYSIS, lit 9 10, ''Query mentions data file formats'')"
proof -
  have h1: "contains ''.csv'' (lower ''Convert this .CSV to .pdf'')"
    by code_simp
  have h2: "contains ''.pdf'' (lower ''Convert this .CSV to .pdf'')"
    by code_simp
  from h1 have h: "contains ''.csv'' (lower ''Convert this .CSV to .pdf'')
           \<or> contains ''.xlsx'' (lower ''Convert this .CSV to .pdf'')
           \<or> contains ''.xls'' (lower ''Convert this .CSV to .pdf'')
           \<or> contains ''spreadsheet'' (lower ''Convert this .CSV to .pdf'')
           \<or> contains ''excel'' (lower ''Convert this .CSV to .pdf'')"
    by blast
  from tabular_fast_path_first [OF h, of None] h1 h2 show ?thesis
    by blast
qed

section \<open>Data agent: queries\<close>

lemma any_in_append: "any_in (xs @ ys) s = (any_in xs s \<or> any_in ys s)"
  by (simp add: any_in_def)

text \<open>
  C10. On a loaded dataset, a query whose lowercased text contains \<open>count\<close> or
  \<open>number of\<close> and none of the twelve aggregation keywords tested before gets the number
  of rows of the dataset as its result; nothing else of the query text is read.
\<close>

theorem count_query_row_count:
  assumes "lookup_dataset self dataset_name = Some df"
    and "\<not> any_in [''total'', ''sum'', ''add'', ''average'', ''mean'', ''avg'',
                   ''maximum'', ''max'', ''highest'', ''minimum'', ''min'', ''lowest'']
                  (lower query)"
    and "contains ''count'' (lower query) \<or> contains ''number of'' (lower query)"
  shows "process_query lib self query dataset_name
           = ([(''success'', VBool True),
               (''result'', VInt (int (df_len df))),
               (''message'', VStr (''Total number of records: ''
                                    @ fmt_int_comma (int (df_len df)))),
               (''query_type'', VStr ''count'')], self)"
  using assms
  by (auto simp add: process_query_def dispatch_query_def any_in_def handle_count_query_def Let_def)

theorem count_query_row_count_witness:
  "lookup_dataset sample_agent None = Some sample_df
   \<and> \<not> any_in [''total'', ''sum'', ''add'', ''average'', ''mean'', ''avg'',
                   ''maximum'', ''max'', ''highest'', ''minimum'', ''min'', ''lowest'']
                  (lower ''Count the Revenue rows where Product is pen'')
   \<and> contains ''count'' (lower ''Count the Revenue rows where Product is pen'')
   \<and> process_query sample_lib sample_agent ''Count the Revenue rows where Product is pen'' None
         = ([(''success'', VBool True),
             (''result'', VInt 5),
             (''message'', VStr ''Total number of records: 5''),
             (''query_type'', VStr ''count'')], sample_agent)"
proof -
  let ?q = "''Count the Revenue rows where Product is pen''"
  have h1: "lookup_dataset sample_agent None = Some sample_df"
    by code_simp
  have h2: "\<not> any_in [''total'', ''sum'', ''add'', ''average'', ''mean'', ''avg'',
                   ''maximum'', ''max'', ''highest'', ''minimum'', ''min'', ''lowest'']
                  (lower ?q)"
    by code_simp
  have h3: "contains ''count'' (lower ?q)"
    by code_simp
  have h4: "int (df_len sample_df) = 5"
    by code_simp
  have h5: "fmt_int_comma 5 = ''5''"
    by code_simp
  from h3 have h3': "contains ''count'' (lower ?q) \<or> contains ''number of'' (lower ?q)"
    by blast
  from count_query_row_count [OF h1 h2 h3', of sample_lib] h1 h2 h3 show ?thesis
    by (simp add: h4 h5)
qed



subsection \<open>Aggregation queries\<close>

lemma find_first_match:
  assumes "\<forall>x\<in>set pre. \<not> P x" and "P y"
  shows "find P (pre @ y # post) = Some y"
  using assms by (induction pre) simp_all

lemma find_no_match:
  assumes "\<forall>x\<in>set xs. \<not> P x"
  shows "find P xs = None"
  using assms by (induction xs) simp_all

lemma numeric_items_append:
  "numeric_items (a @ b) = numeric_items a @ numeric_items b"
  by (induction a rule: numeric_items.induct) simp_all

lemma numeric_items_names:
  "name \<in> fst ` set (numeric_items df) \<Longrightarrow> name \<in> fst ` set df"
  by (induction df rule: numeric_items.induct) auto

lemma find_target_column_first:
  assumes "\<forall>c\<in>set pre. \<not> contains (lower (fst c)) ql"
    and "contains (lower col) ql"
  shows "find_target_column (pre @ (col, s) # post) ql = Some col"
proof -
  have "find (\<lambda>c. contains (lower c) ql) (map fst pre @ col # map fst post) = Some col"
    using assms by (intro find_first_match) auto
  then show ?thesis by (simp add: find_target_column_def)
qed

lemma find_target_column_none:
  assumes "\<forall>c\<in>set df. \<not> contains (lower (fst c)) ql"
  shows "find_target_column df ql = None"
  unfolding find_target_column_def using assms by (intro find_no_match) auto

lemma map_of_numeric_first:
  assumes "\<forall>c\<in>set pre. \<not> contains (lower (fst c)) ql"
    and "contains (lower col) ql"
  shows "map_of (numeric_items (pre @ (col, Int64 xs) # post)) col = Some xs"
proof -
  have "col \<notin> fst ` set pre"
    using assms by auto
  then have "col \<notin> fst ` set (numeric_items pre)"
    using numeric_items_names by blast
  then have "map_of (numeric_items pre) col = None"
    by (simp add: map_of_eq_None_iff)
  then show ?thesis
    by (simp add: numeric_items_append map_add_def)
qed

lemma aggregation_single:
  assumes "\<forall>c\<in>set pre. \<not> contains (lower (fst c)) (lower query)"
    and "contains (lower col) (lower query)"
    and "col \<noteq> []"
  shows "handle_aggregation_query lib (pre @ (col, Int64 xs) # post) query operation
           = [(''success'', VBool True),
              (''result'', series_agg lib operation xs),
              (''message'', VStr (''The '' @ op_name operation @ '' of '' @ col @ '' is ''
                                   @ fmt_result (series_agg lib operation xs))),
              (''query_type'', VStr ''aggregation'')]"
  using assms
  by (simp add: handle_aggregation_query_def find_target_column_first map_of_numeric_first Let_def)

lemma aggregation_all:
  assumes "\<forall>c\<in>set df. \<not> contains (lower (fst c)) (lower query)"
  shows "handle_aggregation_query lib df query operation
           = [(''success'', VBool True),
              (''results'', VDict (map (\<lambda>item. (fst item, series_agg lib operation (snd item)))
                                       (numeric_items df))),
              (''message'', VStr (op_title operation @ '' values for all numeric columns'')),
              (''query_type'', VStr ''aggregation'')]"
  using assms
  by (simp add: handle_aggregation_query_def find_target_column_none Let_def)

lemma total_revenue_dispatch:
  "dispatch_query lib self df ''what is the total Revenue''
     = Inr (handle_aggregation_query lib df ''what is the total Revenue'' OpSum)"
proof -
  have "any_in [''total'', ''sum'', ''add''] (lower ''what is the total Revenue'')"
    by code_simp
  then show ?thesis by (simp add: dispatch_query_def Let_def)
qed

lemma revenue_in_query: "contains (lower ''Revenue'') (lower ''what is the total Revenue'')"
  by code_simp

lemma revenue_sum: "series_agg lib OpSum [1200, 75, 400, 1200, 80] = VInt 2955"
  by (simp add: wrap64_def)

lemma revenue_fmt: "fmt_result (VInt 2955) = ''2,955.00''"
  by code_simp

text \<open>
  C6. The target column of an aggregation query is the first column whose lowercased
  name occurs in the lowercased query. When it is a numeric column, the statistic is
  computed for it alone; when no column name occurs in the query, the statistic is
  computed for every numeric column and returned as a mapping. The query
  \<open>what is the total Revenue\<close> has the result 2955 and the message
  \<open>The sum of Revenue is 2,955.00\<close> on every dataset in which the numeric column
  \<open>Revenue\<close>, with the values 1200, 75, 400, 1200 and 80, is the first column whose
  lowercased name occurs in the lowercased query, that is, in which no column before it
  has a name, such as \<open>Total\<close>, that occurs in the query. Column names are not empty.
\<close>

theorem aggregation_query_target:
  "(df = pre @ (col, Int64 xs) # post
      \<and> (\<forall>c\<in>set pre. \<not> contains (lower (fst c)) (lower query))
      \<and> contains (lower col) (lower query) \<and> col \<noteq> [] \<longrightarrow>
    handle_aggregation_query lib df query operation
      = [(''success'', VBool True),
         (''result'', series_agg lib operation xs),
         (''message'', VStr (''The '' @ op_name operation @ '' of '' @ col @ '' is ''
                              @ fmt_result (series_agg lib operation xs))),
         (''query_type'', VStr ''aggregation'')])
   \<and> ((\<forall>c\<in>set df. \<not> contains (lower (fst c)) (lower query)) \<longrightarrow>
    handle_aggregation_query lib df query operation
      = [(''success'', VBool True),
         (''results'', VDict (map (\<lambda>item. (fst item, series_agg lib operation (snd item)))
                                  (numeric_items df))),
         (''message'', VStr (op_title operation @ '' values for all numeric columns'')),
         (''query_type'', VStr ''aggregation'')])
   \<and> (lookup_dataset self dataset_name
        = Some (pre' @ (''Revenue'', Int64 [1200, 75, 400, 1200, 80]) # post')
      \<and> (\<forall>c\<in>set pre'. \<not> contains (lower (fst c)) (lower ''what is the total Revenue'')) \<longrightarrow>
    fst (process_query lib self ''what is the total Revenue'' dataset_name)
      = [(''success'', VBool True),
         (''result'', VInt 2955),
         (''message'', VStr ''The sum of Revenue is 2,955.00''),
         (''query_type'', VStr ''aggregation'')])"
proof (intro conjI impI)
  assume "df = pre @ (col, Int64 xs) # post
      \<and> (\<forall>c\<in>set pre. \<not> contains (lower (fst c)) (lower query))
      \<and> contains (lower col) (lower query) \<and> col \<noteq> []"
  then show "handle_aggregation_query lib df query operation
      = [(''success'', VBool True),
         (''result'', series_agg lib operation xs),
         (''message'', VStr (''The '' @ op_name operation @ '' of '' @ col @ '' is ''
                              @ fmt_result (series_agg lib operation xs))),
         (''query_type'', VStr ''aggregation'')]"
    using aggregation_single by blast
next
  assume "\<forall>c\<in>set df. \<not> contains (lower (fst c)) (lower query)"
  then show "handle_aggregation_query lib df query operation
      = [(''success'', VBool True),
         (''results'', VDict (map (\<lambda>item. (fst item, series_agg lib operation (snd item)))
                                  (numeric_items df))),
         (''message'', VStr (op_title operation @ '' values for all numeric columns'')),
         (''query_type'', VStr ''aggregation'')]"
    by (rule aggregation_all)
next
  let ?q = "''what is the total Revenue''"
  let ?df = "pre' @ (''Revenue'', Int64 [1200, 75, 400, 1200, 80]) # post'"
  assume a: "lookup_dataset self dataset_name = Some ?df
      \<and> (\<forall>c\<in>set pre'. \<not> contains (lower (fst c)) (lower ?q))"
  then have "handle_aggregation_query lib ?df ?q OpSum
      = [(''success'', VBool True),
         (''result'', series_agg lib OpSum [1200, 75, 400, 1200, 80]),
         (''message'', VStr (''The '' @ op_name OpSum @ '' of '' @ ''Revenue'' @ '' is ''
                   @ fmt_result (series_agg lib OpSum [1200, 75, 400, 1200, 80]))),
         (''query_type'', VStr ''aggregation'')]"
    by (intro aggregation_single revenue_in_query) simp_all
  then have "handle_aggregation_query lib ?df ?q OpSum
      = [(''success'', VBool True),
         (''result'', VInt 2955),
         (''message'', VStr ''The sum of Revenue is 2,955.00''),
         (''query_type'', VStr ''aggregation'')]"
    by (simp only: revenue_sum revenue_fmt op_name.simps) simp
  with a show "fst (process_query lib self ?q dataset_name)
      = [(''success'', VBool True),
         (''result'', VInt 2955),
         (''message'', VStr ''The sum of Revenue is 2,955.00''),
         (''query_type'', VStr ''aggregation'')]"
    by (simp add: process_query_def total_revenue_dispatch)
qed

theorem aggregation_query_target_witness:
  "handle_aggregation_query sample_lib sample_df ''Highest revenue?'' OpMax
      = [(''success'', VBool True),
         (''result'', VInt 1200),
         (''message'', VStr ''The max of Revenue is 1,200.00''),
         (''query_type'', VStr ''aggregation'')]
   \<and> handle_aggregation_query sample_lib sample_df ''sum of everything'' OpSum
      = [(''success'', VBool True),
         (''results'', VDict [(''Revenue'', VInt 2955)]),
         (''message'', VStr ''Sum values for all numeric columns''),
         (''query_type'', VStr ''aggregation'')]
   \<and> fst (process_query sample_lib sample_agent ''what is the total Revenue'' None)
      = [(''success'', VBool True),
         (''result'', VInt 2955),
         (''message'', VStr ''The sum of Revenue is 2,955.00''),
         (''query_type'', VStr ''aggregation'')]"
proof -
  let ?pre = "[(''Product'', Object [''pen'', ''ink'', ''pad'', ''cap'', ''nib''])]"
  let ?xs = "[1200, 75, 400, 1200, 80] :: int list"
  have df: "sample_df = ?pre @ (''Revenue'', Int64 ?xs) # []"
    by (simp add: sample_df_def)
  have look: "lookup_dataset sample_agent None = Some (?pre @ (''Revenue'', Int64 ?xs) # [])"
    by code_simp
  have p1: "\<forall>c\<in>set ?pre. \<not> contains (lower (fst c)) (lower ''Highest revenue?'')"
    by code_simp
  have p2: "contains (lower ''Revenue'') (lower ''Highest revenue?'')"
    by code_simp
  have p3: "\<forall>c\<in>set sample_df. \<not> contains (lower (fst c)) (lower ''sum of everything'')"
    by code_simp
  have p4: "\<forall>c\<in>set ?pre. \<not> contains (lower (fst c)) (lower ''what is the total Revenue'')"
    by code_simp
  have v1: "series_agg sample_lib OpMax ?xs = VInt 1200"
    by simp
  have v2: "fmt_result (VInt 1200) = ''1,200.00''"
    by code_simp
  have v3: "numeric_items sample_df = [(''Revenue'', ?xs)]"
    by (simp add: sample_df_def)
  have v4: "series_agg sample_lib OpSum ?xs = VInt 2955"
    by (rule revenue_sum)
  have a: "handle_aggregation_query sample_lib sample_df ''Highest revenue?'' OpMax
      = [(''success'', VBool True),
         (''result'', series_agg sample_lib OpMax ?xs),
         (''message'', VStr (''The '' @ op_name OpMax @ '' of '' @ ''Revenue'' @ '' is ''
                              @ fmt_result (series_agg sample_lib OpMax ?xs))),
         (''query_type'', VStr ''aggregation'')]"
    using aggregation_query_target [where df = sample_df and pre = ?pre and col = "''Revenue''"
        and xs = ?xs and post = "[]" and query = "''Highest revenue?''" and lib = sample_lib
        and operation = OpMax] df p1 p2 by blast
  have b: "handle_aggregation_query sample_lib sample_df ''sum of everything'' OpSum
      = [(''success'', VBool True),
         (''results'', VDict (map (\<lambda>item. (fst item, series_agg sample_lib OpSum (snd item)))
                                  (numeric_items sample_df))),
         (''message'', VStr (op_title OpSum @ '' values for all numeric columns'')),
         (''query_type'', VStr ''aggregation'')]"
    using aggregation_query_target [where df = sample_df and query = "''sum of everything''"
        and lib = sample_lib and operation = OpSum]
      p3 by blast
  have c: "fst (process_query sample_lib sample_agent ''what is the total Revenue'' None)
      = [(''success'', VBool True),
         (''result'', VInt 2955),
         (''message'', VStr ''The sum of Revenue is 2,955.00''),
         (''query_type'', VStr ''aggregation'')]"
    using aggregation_query_target [where self = sample_agent and dataset_name = None
        and pre' = ?pre and post' = "[]" and lib = sample_lib]
      look p4 by blast
  from a b c show ?thesis
    by (simp only: v1 v2 v3 v4 op_name.simps op_title.simps) (simp add: wrap64_def)
qed

text \<open>
  The example of the claim fails as it is worded, for a dataset that merely has the column
  \<open>Revenue\<close>: when a column \<open>Total\<close> comes before it, the word \<open>total\<close> of the query names
  that column first, and the query returns the sum of \<open>Total\<close>, 15, not the sum of
  \<open>Revenue\<close>.
\<close>

theorem total_revenue_first_match_counterexample:
  "map_of total_first_df ''Revenue'' = Some (Int64 [1200, 75, 400, 1200, 80])
   \<and> ''Revenue'' \<in> set (numeric_cols total_first_df)
   \<and> find_target_column total_first_df (lower ''what is the total Revenue'') = Some ''Total''
   \<and> fst (process_query sample_lib total_first_agent ''what is the total Revenue'' None)
     = [(''success'', VBool True),
        (''result'', VInt 15),
        (''message'', VStr ''The sum of Total is 15.00''),
        (''query_type'', VStr ''aggregation'')]
   \<and> dict_get (fst (process_query sample_lib total_first_agent
                          ''what is the total Revenue'' None)) ''result''
     \<noteq> VInt 2955"
  by code_simp

subsection \<open>Ranking queries\<close>

lemma insort_key_first_seen:
  fixes f :: "nat \<Rightarrow> int"
  assumes "sorted_wrt (\<lambda>a b. f a < f b \<or> (f a = f b \<and> a < b)) ys"
    and "\<forall>y\<in>set ys. x < y"
  shows "sorted_wrt (\<lambda>a b. f a < f b \<or> (f a = f b \<and> a < b)) (insort_key f x ys)"
  using assms
proof (induction ys)
  case Nil
  then show ?case by simp
next
  case (Cons y ys)
  show ?case
  proof (cases "f x \<le> f y")
    case True
    have "\<forall>z\<in>set ys. f y \<le> f z"
      using Cons.prems(1) by auto
    with True Cons.prems show ?thesis
      by (auto simp add: less_le)
  next
    case False
    with Cons show ?thesis
      by (auto simp add: set_insort_key)
  qed
qed

lemma sort_key_first_seen:
  fixes f :: "nat \<Rightarrow> int"
  assumes "sorted_wrt (<) xs"
  shows "sorted_wrt (\<lambda>a b. f a < f b \<or> (f a = f b \<and> a < b)) (sort_key f xs)"
  using assms
proof (induction xs)
  case Nil
  then show ?case by simp
next
  case (Cons x xs)
  then have "sorted_wrt (\<lambda>a b. f a < f b \<or> (f a = f b \<and> a < b)) (sort_key f xs)"
    by simp
  moreover have "\<forall>y\<in>set (sort_key f xs). x < y"
    using Cons.prems by simp
  ultimately show ?case
    by (simp add: insort_key_first_seen)
qed

lemma take_extreme:
  assumes s: "sorted_wrt before ys" and e: "set ys = {0..<len}" and l: "length ys = len"
  shows "extreme_rows before n len (take (nat n) ys)"
  unfolding extreme_rows_def
proof (intro conjI ballI impI)
  have "sorted_wrt before (take (nat n) ys @ drop (nat n) ys)"
    using s by simp
  then have a: "sorted_wrt before (take (nat n) ys)"
    and b: "\<forall>i\<in>set (take (nat n) ys). \<forall>j\<in>set (drop (nat n) ys). before i j"
    unfolding sorted_wrt_append by blast+
  have "set (take (nat n) ys @ drop (nat n) ys) = {0..<len}"
    using e by simp
  then have c: "set (take (nat n) ys) \<union> set (drop (nat n) ys) = {0..<len}"
    by (simp only: set_append)
  show "length (take (nat n) ys) = min (nat n) len"
    using l by simp
  show "set (take (nat n) ys) \<subseteq> {0..<len}"
    using c by blast
  show "sorted_wrt before (take (nat n) ys)"
    by (rule a)
  fix i j
  assume i: "i \<in> set (take (nat n) ys)" and j: "j \<in> {0..<len}"
    and nj: "j \<notin> set (take (nat n) ys)"
  from j nj c have "j \<in> set (drop (nat n) ys)"
    by blast
  with b i show "before i j"
    by blast
qed

lemma nlargest_extreme:
  "extreme_rows (before_desc xs) n (length xs) (nlargest_positions n xs)"
proof -
  have "sorted_wrt (\<lambda>a b. - (xs ! a) < - (xs ! b) \<or> (- (xs ! a) = - (xs ! b) \<and> a < b))
          (sort_key (\<lambda>i. - (xs ! i)) [0..<length xs])"
    by (intro sort_key_first_seen) simp
  then have "sorted_wrt (before_desc xs) (sort_key (\<lambda>i. - (xs ! i)) [0..<length xs])"
    by (rule sorted_wrt_mono_rel [rotated]) (auto simp add: before_desc_def)
  then show ?thesis
    unfolding nlargest_positions_def by (intro take_extreme) simp_all
qed

lemma nsmallest_extreme:
  "extreme_rows (before_asc xs) n (length xs) (nsmallest_positions n xs)"
proof -
  have "sorted_wrt (\<lambda>a b. xs ! a < xs ! b \<or> (xs ! a = xs ! b \<and> a < b))
          (sort_key (\<lambda>i. xs ! i) [0..<length xs])"
    by (intro sort_key_first_seen) simp
  then have "sorted_wrt (before_asc xs) (sort_key (\<lambda>i. xs ! i) [0..<length xs])"
    by (rule sorted_wrt_mono_rel [rotated]) (auto simp add: before_asc_def)
  then show ?thesis
    unfolding nsmallest_positions_def by (intro take_extreme) simp_all
qed

lemma first_number_found:
  assumes "\<forall>c\<in>set pre. \<not> is_digit c" and "ds \<noteq> []" and "\<forall>c\<in>set ds. is_digit c"
    and "post = [] \<or> \<not> is_digit (hd post)"
  shows "first_number (pre @ ds @ post) = Some (int_of_digits ds)"
proof -
  have "dropWhile (\<lambda>c. \<not> is_digit c) (pre @ ds @ post) = ds @ post"
    using assms(1,2,3) by (cases ds) (simp_all add: dropWhile_append)
  moreover have "takeWhile is_digit (ds @ post) = ds"
    using assms(3,4) by (cases post) (simp_all add: takeWhile_append)
  ultimately show ?thesis
    using assms(2) by (simp add: first_number_def)
qed

lemma first_number_none:
  assumes "\<forall>c\<in>set query. \<not> is_digit c"
  shows "first_number query = None"
proof -
  have none: "dropWhile (\<lambda>c. \<not> is_digit c) query = []"
    using assms by (induction query) simp_all
  show ?thesis
    unfolding first_number_def none by simp
qed

lemma map_of_first_match:
  assumes "\<forall>c\<in>set pre. \<not> contains (lower (fst c)) ql" and "contains (lower col) ql"
  shows "map_of (pre @ (col, s) # post) col = Some s"
proof -
  have "col \<notin> fst ` set pre"
    using assms by auto
  then have "map_of pre col = None"
    by (simp add: map_of_eq_None_iff)
  then show ?thesis
    by (simp add: map_add_def)
qed

lemma numeric_items_member:
  "(name, xs) \<in> set (numeric_items df) \<Longrightarrow> (name, Int64 xs) \<in> set df"
  by (induction df rule: numeric_items.induct) auto

lemma select_n_numeric:
  assumes "map_of df col = Some (Int64 xs)"
  shows "select_n ascending n df col
           = Inr (map (row_record df)
                   (if ascending then nsmallest_positions n xs else nlargest_positions n xs))"
  using assms by (simp add: select_n_def)

lemma ranking_matched:
  assumes "\<forall>c\<in>set pre. \<not> contains (lower (fst c)) (lower query)"
    and "contains (lower col) (lower query)" and "col \<noteq> []"
  shows "handle_ranking_query (pre @ (col, Int64 xs) # post) query
           = Inr (ranking_result (pre @ (col, Int64 xs) # post)
                    (contains ''bottom'' (lower query) \<or> contains ''lowest'' (lower query))
                    (case first_number query of None \<Rightarrow> 5 | Some k \<Rightarrow> k) col
                    (if contains ''bottom'' (lower query) \<or> contains ''lowest'' (lower query)
                     then nsmallest_positions
                            (case first_number query of None \<Rightarrow> 5 | Some k \<Rightarrow> k) xs
                     else nlargest_positions
                            (case first_number query of None \<Rightarrow> 5 | Some k \<Rightarrow> k) xs))"
proof -
  have t: "find_target_column (pre @ (col, Int64 xs) # post) (lower query) = Some col"
    using assms(1,2) by (rule find_target_column_first)
  have m: "map_of (pre @ (col, Int64 xs) # post) col = Some (Int64 xs)"
    using assms(1,2) by (rule map_of_first_match)
  show ?thesis
    using assms(3)
    by (simp add: handle_ranking_query_def Let_def t select_n_numeric [OF m] ranking_result_def)
qed

lemma ranking_fallback:
  assumes "\<forall>c\<in>set df. \<not> contains (lower (fst c)) (lower query)"
    and "numeric_items df = (col, xs) # rest" and "col \<noteq> []" and "distinct (map fst df)"
  shows "handle_ranking_query df query
           = Inr (ranking_result df
                    (contains ''bottom'' (lower query) \<or> contains ''lowest'' (lower query))
                    (case first_number query of None \<Rightarrow> 5 | Some k \<Rightarrow> k) col
                    (if contains ''bottom'' (lower query) \<or> contains ''lowest'' (lower query)
                     then nsmallest_positions
                            (case first_number query of None \<Rightarrow> 5 | Some k \<Rightarrow> k) xs
                     else nlargest_positions
                            (case first_number query of None \<Rightarrow> 5 | Some k \<Rightarrow> k) xs))"
proof -
  have t: "find_target_column df (lower query) = None"
    using assms(1) by (rule find_target_column_none)
  have "(col, xs) \<in> set (numeric_items df)"
    using assms(2) by simp
  then have "(col, Int64 xs) \<in> set df"
    by (rule numeric_items_member)
  then have m: "map_of df col = Some (Int64 xs)"
    using assms(4) by simp
  have h: "numeric_cols df \<noteq> []" "hd (numeric_cols df) = col"
    using assms(2) by (simp_all add: numeric_cols_def)
  show ?thesis
    using assms(3) h
    by (simp add: handle_ranking_query_def Let_def t select_n_numeric [OF m] ranking_result_def)
qed

lemma top_3_dispatch:
  "dispatch_query lib self df ''top 3 by Revenue'' = handle_ranking_query df ''top 3 by Revenue''"
proof -
  have "lower ''top 3 by Revenue'' = ''top 3 by revenue''"
    by code_simp
  moreover have "\<not> any_in [''total'', ''sum'', ''add''] ''top 3 by revenue''"
    "\<not> any_in [''average'', ''mean'', ''avg''] ''top 3 by revenue''"
    "\<not> any_in [''maximum'', ''max'', ''highest''] ''top 3 by revenue''"
    "\<not> any_in [''minimum'', ''min'', ''lowest''] ''top 3 by revenue''"
    "\<not> any_in [''count'', ''number of''] ''top 3 by revenue''"
    "\<not> any_in [''plot'', ''chart'', ''graph'', ''visualize'', ''show''] ''top 3 by revenue''"
    "\<not> any_in [''trend'', ''over time'', ''timeline''] ''top 3 by revenue''"
    "any_in [''top'', ''bottom'', ''rank''] ''top 3 by revenue''"
    by code_simp+
  ultimately show ?thesis
    by (simp add: dispatch_query_def Let_def)
qed

lemma top_3_parameters:
  "first_number ''top 3 by Revenue'' = Some 3"
  "\<not> (contains ''bottom'' (lower ''top 3 by Revenue'')
      \<or> contains ''lowest'' (lower ''top 3 by Revenue''))"
  "contains (lower ''Revenue'') (lower ''top 3 by Revenue'')"
  "digits 3 = ''3''"
  by code_simp+

lemma top_3_ranking:
  assumes "\<forall>c\<in>set pre. \<not> contains (lower (fst c)) (lower ''top 3 by Revenue'')"
  shows "handle_ranking_query (pre @ (''Revenue'', Int64 xs) # post) ''top 3 by Revenue''
           = Inr (ranking_result (pre @ (''Revenue'', Int64 xs) # post) False 3 ''Revenue''
                    (nlargest_positions 3 xs))"
  using ranking_matched [OF assms top_3_parameters(3), of xs post] top_3_parameters(1,2)
  by simp

text \<open>
  C7 (as amended). In a ranking query, N is the first run of digits of the query text
  (5 when it has none), the direction is ascending exactly when the lowercased query
  contains \<open>bottom\<close> or \<open>lowest\<close>, and the target column is the first column whose
  lowercased name occurs in the lowercased query, else the first numeric column. When
  the target column is numeric, the result lists the N extreme rows by that column, or
  all rows when the dataset has fewer than N: in descending (ascending) order of the
  column, rows with equal values in first-seen order, every listed row before every row
  left out. On a dataset of at least three rows whose first column named in
  \<open>top 3 by Revenue\<close> is the numeric column \<open>Revenue\<close>, that query returns exactly three
  rows in descending order of \<open>Revenue\<close>.
\<close>

theorem ranking_query_extreme_rows:
  "((\<forall>c\<in>set pre. \<not> is_digit c) \<and> ds \<noteq> [] \<and> (\<forall>c\<in>set ds. is_digit c)
      \<and> (post = [] \<or> \<not> is_digit (hd post)) \<longrightarrow>
    first_number (pre @ ds @ post) = Some (int_of_digits ds))
   \<and> ((\<forall>c\<in>set query. \<not> is_digit c) \<longrightarrow> first_number query = None)
   \<and> ((\<forall>c\<in>set cpre. \<not> contains (lower (fst c)) (lower query))
      \<and> contains (lower col) (lower query) \<and> col \<noteq> [] \<longrightarrow>
    handle_ranking_query (cpre @ (col, Int64 xs) # cpost) query
      = (let n = (case first_number query of None \<Rightarrow> 5 | Some k \<Rightarrow> k);
             ascending = (contains ''bottom'' (lower query) \<or> contains ''lowest'' (lower query))
         in Inr (ranking_result (cpre @ (col, Int64 xs) # cpost) ascending n col
                  (if ascending then nsmallest_positions n xs else nlargest_positions n xs))))
   \<and> ((\<forall>c\<in>set df. \<not> contains (lower (fst c)) (lower query))
      \<and> numeric_items df = (col, xs) # rest \<and> col \<noteq> [] \<and> distinct (map fst df) \<longrightarrow>
    handle_ranking_query df query
      = (let n = (case first_number query of None \<Rightarrow> 5 | Some k \<Rightarrow> k);
             ascending = (contains ''bottom'' (lower query) \<or> contains ''lowest'' (lower query))
         in Inr (ranking_result df ascending n col
                  (if ascending then nsmallest_positions n xs else nlargest_positions n xs))))
   \<and> extreme_rows (before_desc xs) m (length xs) (nlargest_positions m xs)
   \<and> extreme_rows (before_asc xs) m (length xs) (nsmallest_positions m xs)
   \<and> (lookup_dataset self dataset_name = Some (rpre @ (''Revenue'', Int64 rs) # rpost)
      \<and> (\<forall>c\<in>set rpre. \<not> contains (lower (fst c)) (lower ''top 3 by Revenue''))
      \<and> 3 \<le> length rs \<longrightarrow>
    fst (process_query lib self ''top 3 by Revenue'' dataset_name)
      = ranking_result (rpre @ (''Revenue'', Int64 rs) # rpost) False 3 ''Revenue''
          (nlargest_positions 3 rs)
    \<and> length (nlargest_positions 3 rs) = 3
    \<and> sorted_wrt (before_desc rs) (nlargest_positions 3 rs))"
proof (intro conjI impI)
  assume "(\<forall>c\<in>set pre. \<not> is_digit c) \<and> ds \<noteq> [] \<and> (\<forall>c\<in>set ds. is_digit c)
      \<and> (post = [] \<or> \<not> is_digit (hd post))"
  then show "first_number (pre @ ds @ post) = Some (int_of_digits ds)"
    by (intro first_number_found) simp_all
next
  assume "\<forall>c\<in>set query. \<not> is_digit c"
  then show "first_number query = None"
    by (rule first_number_none)
next
  assume "(\<forall>c\<in>set cpre. \<not> contains (lower (fst c)) (lower query))
      \<and> contains (lower col) (lower query) \<and> col \<noteq> []"
  then show "handle_ranking_query (cpre @ (col, Int64 xs) # cpost) query
      = (let n = (case first_number query of None \<Rightarrow> 5 | Some k \<Rightarrow> k);
             ascending = (contains ''bottom'' (lower query) \<or> contains ''lowest'' (lower query))
         in Inr (ranking_result (cpre @ (col, Int64 xs) # cpost) ascending n col
                  (if ascending then nsmallest_positions n xs else nlargest_positions n xs)))"
    unfolding Let_def by (intro ranking_matched) simp_all
next
  assume "(\<forall>c\<in>set df. \<not> contains (lower (fst c)) (lower query))
      \<and> numeric_items df = (col, xs) # rest \<and> col \<noteq> [] \<and> distinct (map fst df)"
  then show "handle_ranking_query df query
      = (let n = (case first_number query of None \<Rightarrow> 5 | Some k \<Rightarrow> k);
             ascending = (contains ''bottom'' (lower query) \<or> contains ''lowest'' (lower query))
         in Inr (ranking_result df ascending n col
                  (if ascending then nsmallest_positions n xs else nlargest_positions n xs)))"
    unfolding Let_def using ranking_fallback by blast
next
  show "extreme_rows (before_desc xs) m (length xs) (nlargest_positions m xs)"
    by (rule nlargest_extreme)
next
  show "extreme_rows (before_asc xs) m (length xs) (nsmallest_positions m xs)"
    by (rule nsmallest_extreme)
next
  assume a: "lookup_dataset self dataset_name = Some (rpre @ (''Revenue'', Int64 rs) # rpost)
      \<and> (\<forall>c\<in>set rpre. \<not> contains (lower (fst c)) (lower ''top 3 by Revenue''))
      \<and> 3 \<le> length rs"
  then have "handle_ranking_query (rpre @ (''Revenue'', Int64 rs) # rpost) ''top 3 by Revenue''
           = Inr (ranking_result (rpre @ (''Revenue'', Int64 rs) # rpost) False 3 ''Revenue''
                    (nlargest_positions 3 rs))"
    by (intro top_3_ranking) simp
  with a show "fst (process_query lib self ''top 3 by Revenue'' dataset_name)
      = ranking_result (rpre @ (''Revenue'', Int64 rs) # rpost) False 3 ''Revenue''
          (nlargest_positions 3 rs)"
    by (simp add: process_query_def top_3_dispatch)
next
  assume a: "lookup_dataset self dataset_name = Some (rpre @ (''Revenue'', Int64 rs) # rpost)
      \<and> (\<forall>c\<in>set rpre. \<not> contains (lower (fst c)) (lower ''top 3 by Revenue''))
      \<and> 3 \<le> length rs"
  have "extreme_rows (before_desc rs) 3 (length rs) (nlargest_positions 3 rs)"
    by (rule nlargest_extreme)
  with a show "length (nlargest_positions 3 rs) = 3"
    by (simp add: extreme_rows_def)
next
  have "extreme_rows (before_desc rs) 3 (length rs) (nlargest_positions 3 rs)"
    by (rule nlargest_extreme)
  then show "sorted_wrt (before_desc rs) (nlargest_positions 3 rs)"
    by (simp add: extreme_rows_def)
qed

theorem ranking_query_extreme_rows_witness:
  "first_number ''top 3 by Revenue'' = Some 3
   \<and> first_number ''rank them'' = None
   \<and> handle_ranking_query sample_df ''Bottom 2 by revenue''
      = Inr [(''success'', VBool True),
             (''result'', VList [VDict [(''Product'', VStr ''ink''), (''Revenue'', VInt 75)],
                                 VDict [(''Product'', VStr ''nib''), (''Revenue'', VInt 80)]]),
             (''message'', VStr ''Bottom 2 records by Revenue''),
             (''query_type'', VStr ''ranking'')]
   \<and> handle_ranking_query sample_df ''rank them''
      = Inr [(''success'', VBool True),
             (''result'', VList [VDict [(''Product'', VStr ''pen''), (''Revenue'', VInt 1200)],
                                 VDict [(''Product'', VStr ''cap''), (''Revenue'', VInt 1200)],
                                 VDict [(''Product'', VStr ''pad''), (''Revenue'', VInt 400)],
                                 VDict [(''Product'', VStr ''nib''), (''Revenue'', VInt 80)],
                                 VDict [(''Product'', VStr ''ink''), (''Revenue'', VInt 75)]]),
             (''message'', VStr ''Top 5 records by Revenue''),
             (''query_type'', VStr ''ranking'')]
   \<and> fst (process_query sample_lib sample_agent ''top 3 by Revenue'' None)
      = [(''success'', VBool True),
         (''result'', VList [VDict [(''Product'', VStr ''pen''), (''Revenue'', VInt 1200)],
                             VDict [(''Product'', VStr ''cap''), (''Revenue'', VInt 1200)],
                             VDict [(''Product'', VStr ''pad''), (''Revenue'', VInt 400)]]),
         (''message'', VStr ''Top 3 records by Revenue''),
         (''query_type'', VStr ''ranking'')]
   \<and> extreme_rows (before_desc [1200, 75, 400, 1200, 80]) 3 5 [0, 3, 2]"
proof -
  let ?pre = "[(''Product'', Object [''pen'', ''ink'', ''pad'', ''cap'', ''nib''])]"
  let ?xs = "[1200, 75, 400, 1200, 80] :: int list"
  note inst = ranking_query_extreme_rows [where pre = "''top ''" and ds = "''3''"
      and post = "'' by Revenue''" and query = "''rank them''" and df = sample_df
      and col = "''Revenue''" and xs = ?xs and rest = "[]" and m = 3
      and self = sample_agent and dataset_name = None and rpre = ?pre and rs = ?xs
      and rpost = "[]" and lib = sample_lib]
  note inst2 = ranking_query_extreme_rows [where query = "''Bottom 2 by revenue''"
      and cpre = ?pre and col = "''Revenue''" and xs = ?xs and cpost = "[]"]
  have d1: "(\<forall>c\<in>set ''top ''. \<not> is_digit c) \<and> ''3'' \<noteq> [] \<and> (\<forall>c\<in>set ''3''. is_digit c)
      \<and> ('' by Revenue'' = [] \<or> \<not> is_digit (hd '' by Revenue''))"
    by code_simp
  have d2: "\<forall>c\<in>set ''rank them''. \<not> is_digit c"
    by code_simp
  have d3: "(\<forall>c\<in>set ?pre. \<not> contains (lower (fst c)) (lower ''Bottom 2 by revenue''))
      \<and> contains (lower ''Revenue'') (lower ''Bottom 2 by revenue'') \<and> ''Revenue'' \<noteq> []"
    by code_simp
  have d4: "(\<forall>c\<in>set sample_df. \<not> contains (lower (fst c)) (lower ''rank them''))
      \<and> numeric_items sample_df = (''Revenue'', ?xs) # [] \<and> ''Revenue'' \<noteq> []
      \<and> distinct (map fst sample_df)"
    by code_simp
  have d5: "lookup_dataset sample_agent None = Some (?pre @ (''Revenue'', Int64 ?xs) # [])
      \<and> (\<forall>c\<in>set ?pre. \<not> contains (lower (fst c)) (lower ''top 3 by Revenue''))
      \<and> 3 \<le> length ?xs"
    by code_simp
  have df: "sample_df = ?pre @ (''Revenue'', Int64 ?xs) # []"
    by (simp add: sample_df_def)
  have e1: "''top '' @ ''3'' @ '' by Revenue'' = ''top 3 by Revenue''" "int_of_digits ''3'' = 3"
    by code_simp+
  have e2: "(let n = (case first_number ''Bottom 2 by revenue'' of None \<Rightarrow> 5 | Some k \<Rightarrow> k);
             ascending = (contains ''bottom'' (lower ''Bottom 2 by revenue'')
                          \<or> contains ''lowest'' (lower ''Bottom 2 by revenue''))
         in Inr (ranking_result sample_df ascending n ''Revenue''
                  (if ascending then nsmallest_positions n ?xs else nlargest_positions n ?xs)))
       = (Inr [(''success'', VBool True),
             (''result'', VList [VDict [(''Product'', VStr ''ink''), (''Revenue'', VInt 75)],
                                 VDict [(''Product'', VStr ''nib''), (''Revenue'', VInt 80)]]),
             (''message'', VStr ''Bottom 2 records by Revenue''),
             (''query_type'', VStr ''ranking'')] :: py_error + pydict)"
    by code_simp
  have e3: "(let n = (case first_number ''rank them'' of None \<Rightarrow> 5 | Some k \<Rightarrow> k);
             ascending = (contains ''bottom'' (lower ''rank them'')
                          \<or> contains ''lowest'' (lower ''rank them''))
         in Inr (ranking_result sample_df ascending n ''Revenue''
                  (if ascending then nsmallest_positions n ?xs else nlargest_positions n ?xs)))
       = (Inr [(''success'', VBool True),
             (''result'', VList [VDict [(''Product'', VStr ''pen''), (''Revenue'', VInt 1200)],
                                 VDict [(''Product'', VStr ''cap''), (''Revenue'', VInt 1200)],
                                 VDict [(''Product'', VStr ''pad''), (''Revenue'', VInt 400)],
                                 VDict [(''Product'', VStr ''nib''), (''Revenue'', VInt 80)],
                                 VDict [(''Product'', VStr ''ink''), (''Revenue'', VInt 75)]]),
             (''message'', VStr ''Top 5 records by Revenue''),
             (''query_type'', VStr ''ranking'')] :: py_error + pydict)"
    by code_simp
  have e4: "ranking_result sample_df False 3 ''Revenue'' [0, 3, 2]
      = [(''success'', VBool True),
         (''result'', VList [VDict [(''Product'', VStr ''pen''), (''Revenue'', VInt 1200)],
                             VDict [(''Product'', VStr ''cap''), (''Revenue'', VInt 1200)],
                             VDict [(''Product'', VStr ''pad''), (''Revenue'', VInt 400)]]),
         (''message'', VStr ''Top 3 records by Revenue''),
         (''query_type'', VStr ''ranking'')]"
    by code_simp
  have e5: "nlargest_positions 3 ?xs = [0, 3, 2]" "length ?xs = 5"
    by code_simp+
  have c1: "first_number ''top 3 by Revenue'' = Some 3"
    using inst d1 e1 by simp
  have c2: "first_number ''rank them'' = None"
    using inst d2 by blast
  have c3: "handle_ranking_query sample_df ''Bottom 2 by revenue''
      = (let n = (case first_number ''Bottom 2 by revenue'' of None \<Rightarrow> 5 | Some k \<Rightarrow> k);
             ascending = (contains ''bottom'' (lower ''Bottom 2 by revenue'')
                          \<or> contains ''lowest'' (lower ''Bottom 2 by revenue''))
         in Inr (ranking_result sample_df ascending n ''Revenue''
                  (if ascending then nsmallest_positions n ?xs else nlargest_positions n ?xs)))"
    using inst2 d3 unfolding df [symmetric] by blast
  have c4: "handle_ranking_query sample_df ''rank them''
      = (let n = (case first_number ''rank them'' of None \<Rightarrow> 5 | Some k \<Rightarrow> k);
             ascending = (contains ''bottom'' (lower ''rank them'')
                          \<or> contains ''lowest'' (lower ''rank them''))
         in Inr (ranking_result sample_df ascending n ''Revenue''
                  (if ascending then nsmallest_positions n ?xs else nlargest_positions n ?xs)))"
    using inst d4 by blast
  have c5: "fst (process_query sample_lib sample_agent ''top 3 by Revenue'' None)
      = ranking_result sample_df False 3 ''Revenue'' (nlargest_positions 3 ?xs)"
    using inst d5 unfolding df [symmetric] by blast
  have c6: "extreme_rows (before_desc ?xs) 3 (length ?xs) (nlargest_positions 3 ?xs)"
    using inst by blast
  from c1 c2 c3 c4 c5 c6 show ?thesis
    unfolding e2 e3 e5 e4 by simp
qed

text \<open>
  The claim as stated fails on a dataset of two rows, where \<open>top 3 by Revenue\<close> returns two
  rows, and on a query that names a text column, where no rows are returned.
\<close>

theorem ranking_exactly_three_rows_counterexample:
  "fst (process_query sample_lib two_row_agent ''top 3 by Revenue'' None)
     = [(''success'', VBool True),
        (''result'', VList [VDict [(''Revenue'', VInt 20)], VDict [(''Revenue'', VInt 10)]]),
        (''message'', VStr ''Top 3 records by Revenue''),
        (''query_type'', VStr ''ranking'')]
   \<and> length [VDict [(''Revenue'', VInt 20)], VDict [(''Revenue'', VInt 10)]] \<noteq> 3
   \<and> fst (process_query sample_lib sample_agent ''top 3 by product'' None)
     = [(''error'', VStr ''Failed to process query: Column Product has dtype object, cannot use method nlargest with this dtype'')]"
  by code_simp

section \<open>Research agent: the extractive summary\<close>

lemma sentence_scores_index:
  "map (\<lambda>t. fst (snd t)) (sentence_scores ss) = [0..<length ss]"
  by (simp add: sentence_scores_def comp_def)

lemma sentence_scores_member:
  assumes "t \<in> set (sentence_scores ss)"
  shows "fst (snd t) < length ss
         \<and> t = (sentence_score (length ss) (fst (snd t)) (ss ! fst (snd t)), fst (snd t),
                ss ! fst (snd t))"
  using assms by (auto simp add: sentence_scores_def)

lemma sentence_scores_has:
  assumes "m < length ss"
  shows "(sentence_score (length ss) m (ss ! m), m, ss ! m) \<in> set (sentence_scores ss)"
  using assms by (auto simp add: sentence_scores_def)

lemma sort_reverse_set: "set (sort_reverse xs) = set xs"
  by (simp add: sort_reverse_def)

lemma sort_reverse_length: "length (sort_reverse xs) = length xs"
  by (simp add: sort_reverse_def)

lemma sort_reverse_index_distinct:
  "distinct (map (\<lambda>t. fst (snd t)) (sort_reverse (sentence_scores ss)))"
proof -
  have "distinct (map (\<lambda>t. fst (snd t)) (sentence_scores ss))"
    by (simp only: sentence_scores_index distinct_upt)
  then have "distinct (sentence_scores ss)"
    and "inj_on (\<lambda>t. fst (snd t)) (set (sentence_scores ss))"
    by (simp_all add: distinct_map)
  then show ?thesis
    by (simp add: distinct_map sort_reverse_def)
qed

lemma sort_reverse_descending:
  "sorted_wrt (\<lambda>a b. (fst b, fst (snd b)) \<le> (fst a, fst (snd a))) (sort_reverse xs)"
proof -
  have "sorted (map (\<lambda>t. (fst t, fst (snd t))) (sort_key (\<lambda>t. (fst t, fst (snd t))) xs))"
    by (rule sorted_sort_key)
  then have "sorted_wrt (\<lambda>a b. (fst a, fst (snd a)) \<le> (fst b, fst (snd b)))
               (sort_key (\<lambda>t. (fst t, fst (snd t))) xs)"
    by (simp add: sorted_map)
  then show ?thesis
    by (simp add: sort_reverse_def sorted_wrt_rev)
qed

lemma join_three: "join sep [a, b, c] = a @ sep @ b @ sep @ c"
  by simp

lemma length_three:
  assumes "length xs = 3"
  shows "\<exists>a b c. xs = [a, b, c]"
  using assms by (auto simp add: eval_nat_numeral length_Suc_conv)

lemma key_less_outranks:
  assumes "(sentence_score (length ss) m (ss ! m), m)
             \<le> (sentence_score (length ss) i (ss ! i), i)" and "m \<noteq> i"
  shows "outranks ss i m"
  using assms by (auto simp add: outranks_def less_eq_prod_def)

lemma summary_selection:
  assumes n: "3 < length ss"
  shows "\<exists>i j k. i < j \<and> j < k \<and> k < length ss
           \<and> map (\<lambda>t. snd (snd t))
                (sort_key (\<lambda>t. fst (snd t)) (take 3 (sort_reverse (sentence_scores ss))))
               = [ss ! i, ss ! j, ss ! k]
           \<and> (\<forall>m<length ss. m \<notin> {i, j, k} \<longrightarrow>
                 outranks ss i m \<and> outranks ss j m \<and> outranks ss k m)"
proof -
  let ?idx = "\<lambda>t :: int \<times> nat \<times> string. fst (snd t)"
  let ?L = "sort_reverse (sentence_scores ss)"
  let ?T = "take 3 ?L"
  let ?D = "drop 3 ?L"
  let ?S = "sort_key ?idx ?T"
  have len: "length ?L = length ss"
    by (simp add: sort_reverse_length sentence_scores_def)
  have "length ?S = 3"
    using n len by simp
  then obtain a b c where S: "?S = [a, b, c]"
    using length_three by blast
  have setS: "set ?S = set ?T"
    by simp
  have dT: "distinct (map ?idx ?T)"
    using sort_reverse_index_distinct [of ss] by (simp add: take_map [symmetric])
  have "distinct (map ?idx ?S)"
    using dT by (simp add: distinct_map)
  moreover have "sorted (map ?idx ?S)"
    by (rule sorted_sort_key)
  ultimately have order: "?idx a < ?idx b" "?idx b < ?idx c"
    unfolding S by auto
  have sub: "set ?T \<subseteq> set (sentence_scores ss)"
    using set_take_subset [of 3 ?L] by (simp add: sort_reverse_set)
  have abc: "a \<in> set ?T" "b \<in> set ?T" "c \<in> set ?T"
    using setS unfolding S by auto
  then have mem: "a \<in> set (sentence_scores ss)" "b \<in> set (sentence_scores ss)"
    "c \<in> set (sentence_scores ss)"
    using sub by auto
  note ma = sentence_scores_member [OF mem(1)]
  note mb = sentence_scores_member [OF mem(2)]
  note mc = sentence_scores_member [OF mem(3)]
  have "sorted_wrt (\<lambda>x y. (fst y, fst (snd y)) \<le> (fst x, fst (snd x))) (?T @ ?D)"
    using sort_reverse_descending [of "sentence_scores ss"] by simp
  then have TD: "\<forall>x\<in>set ?T. \<forall>y\<in>set ?D. (fst y, fst (snd y)) \<le> (fst x, fst (snd x))"
    unfolding sorted_wrt_append by blast
  have split: "set (sentence_scores ss) = set ?T \<union> set ?D"
    using set_append [of ?T ?D] by (simp add: sort_reverse_set)
  have out: "outranks ss (?idx x) m"
    if x: "x \<in> set ?T" and m: "m < length ss" and nm: "m \<notin> {?idx a, ?idx b, ?idx c}" for x m
  proof -
    let ?t = "(sentence_score (length ss) m (ss ! m), m, ss ! m)"
    have "?t \<in> set (sentence_scores ss)"
      using m by (rule sentence_scores_has)
    moreover have "?t \<notin> set ?T"
    proof
      assume "?t \<in> set ?T"
      then have "?t \<in> set ?S" by simp
      then have "?t = a \<or> ?t = b \<or> ?t = c" unfolding S by simp
      then have "m = ?idx a \<or> m = ?idx b \<or> m = ?idx c" by auto
      with nm show False by simp
    qed
    ultimately have "?t \<in> set ?D"
      using split by blast
    with TD x have le: "(fst ?t, fst (snd ?t)) \<le> (fst x, fst (snd x))"
      by blast
    have xm: "x \<in> set (sentence_scores ss)"
      using x sub by auto
    have "x = a \<or> x = b \<or> x = c"
      using x setS unfolding S by auto
    with nm have ne: "m \<noteq> ?idx x"
      by auto
    have "fst x = sentence_score (length ss) (?idx x) (ss ! ?idx x)"
      using sentence_scores_member [OF xm] by (metis fst_conv)
    with le have "(sentence_score (length ss) m (ss ! m), m)
             \<le> (sentence_score (length ss) (?idx x) (ss ! ?idx x), ?idx x)"
      by simp
    then show ?thesis
      using ne by (rule key_less_outranks)
  qed
  have texts: "map (\<lambda>t. snd (snd t)) ?S = [ss ! ?idx a, ss ! ?idx b, ss ! ?idx c]"
    unfolding S using ma mb mc by (metis list.simps(8,9) snd_conv)
  show ?thesis
  proof (intro exI conjI allI impI)
    show "?idx a < ?idx b" by (rule order(1))
    show "?idx b < ?idx c" by (rule order(2))
    show "?idx c < length ss" using mc by blast
    show "map (\<lambda>t. snd (snd t)) ?S = [ss ! ?idx a, ss ! ?idx b, ss ! ?idx c]"
      by (rule texts)
  next
    fix m assume "m < length ss" "m \<notin> {?idx a, ?idx b, ?idx c}"
    then show "outranks ss (?idx a) m" using out abc(1) by blast
  next
    fix m assume "m < length ss" "m \<notin> {?idx a, ?idx b, ?idx c}"
    then show "outranks ss (?idx b) m" using out abc(2) by blast
  next
    fix m assume "m < length ss" "m \<notin> {?idx a, ?idx b, ?idx c}"
    then show "outranks ss (?idx c) m" using out abc(3) by blast
  qed
qed

text \<open>
  C1 (as amended). When the tokenizer finds at most three sentences, the summary is the
  text itself. When it finds more, the summary is three sentences joined by single
  spaces in document order, and each of them outranks every sentence left out: its
  score is higher, or the scores are equal and it stands later in the document. The
  score is \<open>sentence_score\<close>: 2 for an index below \<open>n * 0.3\<close>, 1 for an index above
  \<open>n * 0.7\<close>, 1 for a length strictly between 50 and 200.
\<close>

theorem generate_summary_selection:
  "(length (tok text) \<le> 3 \<longrightarrow> generate_summary tok text 3 = text)
   \<and> (3 < length (tok text) \<longrightarrow>
        (\<exists>i j k. i < j \<and> j < k \<and> k < length (tok text)
           \<and> generate_summary tok text 3
               = tok text ! i @ '' '' @ tok text ! j @ '' '' @ tok text ! k
           \<and> (\<forall>m<length (tok text). m \<notin> {i, j, k} \<longrightarrow>
                 outranks (tok text) i m \<and> outranks (tok text) j m
                 \<and> outranks (tok text) k m)))"
proof (intro conjI impI)
  assume "length (tok text) \<le> 3"
  then show "generate_summary tok text 3 = text"
    by (simp add: generate_summary_def)
next
  assume n: "3 < length (tok text)"
  have g: "generate_summary tok text 3
             = join '' '' (map (\<lambda>t. snd (snd t))
                 (sort_key (\<lambda>t. fst (snd t))
                    (take 3 (sort_reverse (sentence_scores (tok text))))))"
    using n by (simp add: generate_summary_def Let_def)
  have j: "join '' '' [a, b, c] = a @ '' '' @ b @ '' '' @ c" for a b c :: string
    by (rule join_three)
  show "\<exists>i j k. i < j \<and> j < k \<and> k < length (tok text)
           \<and> generate_summary tok text 3
               = tok text ! i @ '' '' @ tok text ! j @ '' '' @ tok text ! k
           \<and> (\<forall>m<length (tok text). m \<notin> {i, j, k} \<longrightarrow>
                 outranks (tok text) i m \<and> outranks (tok text) j m
                 \<and> outranks (tok text) k m)"
    using summary_selection [OF n] unfolding g
    by (elim exE conjE, intro exI conjI) (simp_all only: j)
qed


theorem generate_summary_selection_witness:
  "length [''One.'', ''Two.''] \<le> 3
   \<and> generate_summary (\<lambda>t. [''One.'', ''Two.'']) ''One. Two.'' 3 = ''One. Two.''
   \<and> 3 < length four_sentences
   \<and> (\<exists>i j k. i < j \<and> j < k \<and> k < length four_sentences
           \<and> generate_summary (\<lambda>t. four_sentences) four_text 3
               = four_sentences ! i @ '' '' @ four_sentences ! j @ '' '' @ four_sentences ! k
           \<and> (\<forall>m<length four_sentences. m \<notin> {i, j, k} \<longrightarrow>
                 outranks four_sentences i m \<and> outranks four_sentences j m
                 \<and> outranks four_sentences k m))"
proof -
  have h1: "length [''One.'', ''Two.''] \<le> 3"
    by simp
  have h2: "3 < length four_sentences"
    by (simp add: four_sentences_def)
  note a = generate_summary_selection [of "\<lambda>t. [''One.'', ''Two.'']" "''One. Two.''",
      THEN conjunct1, THEN mp, OF h1]
  note b = generate_summary_selection [of "\<lambda>t. four_sentences" four_text,
      THEN conjunct2, THEN mp, OF h2]
  show ?thesis
    by (rule conjI [OF h1 conjI [OF a conjI [OF h2 b]]])
qed

text \<open>
  The claim as stated gives a tie to the earlier sentence. Of the four sentences below,
  the third and the fourth have the same score; the summary keeps the fourth.
\<close>

theorem summary_tie_earlier_counterexample:
  "generate_summary (\<lambda>t. four_sentences) four_text 3 = ''Tea is hot. Ice is cold. The end.''
   \<and> ref_summary_earlier (\<lambda>t. four_sentences) four_text 3
       = ''Tea is hot. Ice is cold. This third sentence is long enough to earn the bonus for length.''
   \<and> sentence_score 4 2 (four_sentences ! 2) = sentence_score 4 3 (four_sentences ! 3)
   \<and> map (\<lambda>i. sentence_score 4 i (four_sentences ! i)) [0, 1, 2, 3] = [2, 2, 1, 1]"
  by code_simp


section \<open>Research agent: the guard on chunk indices\<close>

lemma py_index_in_range:
  assumes "- int (length cs) \<le> i" and "i < int (length cs)"
  shows "py_index cs i = Inr (cs ! nat (i mod int (length cs)))"
proof (cases "i < 0")
  case True
  with assms have "i mod int (length cs) = int (length cs) + i"
    by (smt (verit) mod_add_self1 mod_pos_pos_trivial)
  with True assms show ?thesis
    by (simp add: py_index_def Let_def)
next
  case False
  with assms have "i mod int (length cs) = i"
    by simp
  with False assms show ?thesis
    by (simp add: py_index_def Let_def)
qed

lemma py_index_member:
  assumes "py_index cs i = Inr c"
  shows "c \<in> set cs"
  using assms by (auto simp add: py_index_def Let_def split: if_splits)

lemma py_index_below:
  assumes "i < - int (length cs)"
  shows "py_index cs i = Inl (IndexError ''list index out of range'')"
  using assms by (simp add: py_index_def Let_def)

lemma collect_chunks_guard:
  assumes "\<forall>h\<in>set hits. - int (length cs) \<le> snd h"
  shows "collect_chunks entry cs hits
           = Inr (map (\<lambda>h. entry (cs ! nat (snd h mod int (length cs))) (fst h))
                    (filter (\<lambda>h. snd h < int (length cs)) hits))"
  using assms
proof (induction hits)
  case Nil
  then show ?case by simp
next
  case (Cons h hits)
  obtain score idx where h: "h = (score, idx)" by (cases h)
  show ?case
  proof (cases "idx < int (length cs)")
    case True
    with Cons.prems h have "py_index cs idx = Inr (cs ! nat (idx mod int (length cs)))"
      by (intro py_index_in_range) simp_all
    with True Cons h show ?thesis by simp
  next
    case False
    with Cons h show ?thesis by simp
  qed
qed

lemma collect_chunks_results:
  assumes "collect_chunks entry cs hits = Inr found"
  shows "length found = length (filter (\<lambda>h. snd h < int (length cs)) hits)
         \<and> (\<forall>r\<in>set found. \<exists>c\<in>set cs. \<exists>score. r = entry c score)"
  using assms
proof (induction hits arbitrary: found)
  case Nil
  then show ?case by simp
next
  case (Cons h hits)
  obtain score idx where h: "h = (score, idx)" by (cases h)
  show ?case
  proof (cases "idx < int (length cs)")
    case True
    with Cons.prems h obtain c rest where c: "py_index cs idx = Inr c"
      and rest: "collect_chunks entry cs hits = Inr rest" and f: "found = entry c score # rest"
      by (auto split: sum.splits)
    from py_index_member [OF c] Cons.IH [OF rest] f True h show ?thesis
      by auto
  next
    case False
    with Cons h show ?thesis by simp
  qed
qed

lemma collect_chunks_fault:
  assumes "collect_chunks entry cs hits = Inl e"
  shows "e = IndexError ''list index out of range'' \<and> (\<exists>h\<in>set hits. snd h < - int (length cs))"
  using assms
proof (induction hits)
  case Nil
  then show ?case by simp
next
  case (Cons h hits)
  obtain score idx where h: "h = (score, idx)" by (cases h)
  show ?case
  proof (cases "idx < int (length cs)")
    case True
    show ?thesis
    proof (cases "py_index cs idx")
      case (Inl e')
      with True have "idx < - int (length cs)" "e' = IndexError ''list index out of range''"
        by (auto simp add: py_index_def Let_def split: if_splits)
      with Inl True Cons.prems h show ?thesis by simp
    next
      case (Inr c)
      with True Cons h show ?thesis by (auto split: sum.splits)
    qed
  next
    case False
    with Cons h show ?thesis by simp
  qed
qed

lemma collect_chunks_all_discarded:
  assumes "\<forall>h\<in>set hits. int (length cs) \<le> snd h"
  shows "collect_chunks entry cs hits = Inr []"
  using assms by (induction hits) auto

lemma search_documents_single:
  assumes "documents self = [(name, doc)]"
    and "index_search lib name query top_k = Inr hits"
    and "\<forall>h\<in>set hits. - int (length (chunks doc)) \<le> snd h"
  shows "search_documents lib self query top_k
           = [(''success'', VBool True),
              (''query'', VStr query),
              (''results'', VList (map VDict (take top_k (sort_by_score
                  (map (\<lambda>h. search_entry name doc
                               (chunks doc ! nat (snd h mod int (length (chunks doc)))) (fst h))
                     (filter (\<lambda>h. snd h < int (length (chunks doc))) hits)))))),
              (''total_results'',
                 VInt (int (length (filter (\<lambda>h. snd h < int (length (chunks doc))) hits))))]"
  using assms(1,2) by (simp add: search_documents_def collect_chunks_guard [OF assms(3)])

lemma answer_question_single:
  assumes "documents self = [(name, doc)]"
    and "index_search lib name question top_k = Inr hits"
    and "\<forall>h\<in>set hits. - int (length (chunks doc)) \<le> snd h"
  shows "dict_get (answer_question lib self question None top_k) ''relevant_chunks''
           = VList (map VDict (take top_k (sort_by_score
                  (map (\<lambda>h. answer_entry name
                               (chunks doc ! nat (snd h mod int (length (chunks doc)))) (fst h))
                     (filter (\<lambda>h. snd h < int (length (chunks doc))) hits)))))"
  using assms(1,2)
  by (simp add: answer_question_def collect_chunks_guard [OF assms(3)] dict_get_def Let_def)



section \<open>Orchestrator: ambiguous queries\<close>

lemma process_query_agent: "snd (process_query lib agent query dataset_name) = agent"
  by (simp add: process_query_def split: option.splits sum.splits)

lemma route_to_data_agent_loaded:
  assumes "data_storage (data_agent self) \<noteq> []"
  shows "route_to_data_agent lib self query context
           = (dict_set (fst (process_query (data_lib lib) (data_agent self) query None))
                ''agent'' (VStr ''data_intelligence''), self)"
proof -
  obtain result agent' where p: "process_query (data_lib lib) (data_agent self) query None
      = (result, agent')"
    by (cases "process_query (data_lib lib) (data_agent self) query None")
  with process_query_agent [of "data_lib lib" "data_agent self" query None]
  have "agent' = data_agent self" by simp
  with p assms show ?thesis
    by (simp add: route_to_data_agent_def)
qed

lemma route_to_research_agent_loaded:
  assumes "documents (research_agent self) \<noteq> []"
  shows "route_to_research_agent lib self query context
           = (research_answer lib (research_agent self) query, self)"
  using assms by (simp add: route_to_research_agent_def)

lemma dict_get_dict_set: "dict_get (dict_set d k v) k = v"
  by (induction d) (simp_all add: dict_get_def)

lemma research_answer_agent:
  "dict_get (research_answer lib agent query) ''agent'' = VStr ''research_assistant''"
  by (simp only: research_answer_def Let_def dict_get_dict_set)



section \<open>Research agent: chunk splitting\<close>

lemma chunks_of_snoc: "chunks_of (gs @ [g]) = chunks_of gs @ [group_chunk (length gs) g]"
  by (simp add: chunks_of_def nth_append)

lemma overlap_chain_snoc:
  "overlap_chain (gs @ [g]) = (overlap_chain gs \<and> (gs = [] \<or> overlap_link (last gs) g))"
  by (induction gs rule: overlap_chain.induct) simp_all

lemma space_is_space: "is_space CHR '' ''"
  by code_simp

lemma strip_space: "strip ('' '' @ x) = strip x"
  by (simp add: strip_def space_is_space)

lemma join_snoc: "cs \<noteq> [] \<Longrightarrow> join sep (cs @ [s]) = join sep cs @ sep @ s"
  by (induction sep cs rule: join.induct) simp_all

lemma overlap_sentences_default:
  "overlap_sentences 50 cs = (if 1 < length cs then [last cs] else [])"
proof (cases "1 < length cs")
  case True
  then have "cs \<noteq> []" by auto
  then have "cs = butlast cs @ [last cs]" by simp
  then have "drop (length cs - 1) cs = [last cs]"
    by (metis append_eq_conv_conj length_butlast)
  with True show ?thesis
    by (simp add: overlap_sentences_def slice_from_def nat_diff_distrib')
next
  case False
  then show ?thesis by (simp add: overlap_sentences_def)
qed

lemma group_step_eq:
  "group_step budget ov s (groups, cc, carried, cs)
     = (if int (length cc) + int (length s) < budget
        then (groups, cc @ '' '' @ s, carried, cs @ [s])
        else (close_group groups cc carried cs,
              join '' '' (overlap_sentences ov cs) @ '' '' @ s,
              length (overlap_sentences ov cs),
              overlap_sentences ov cs @ [s]))"
  by (simp add: group_step_def Let_def)

lemma chunk_step_eq:
  "chunk_step budget ov s (acc, cc, cs)
     = (if int (length cc) + int (length s) < budget
        then (acc, cc @ '' '' @ s, cs @ [s])
        else (close_chunk acc cc cs,
              join '' '' (overlap_sentences ov cs) @ '' '' @ s,
              overlap_sentences ov cs @ [s]))"
  by (simp add: chunk_step_def Let_def)

text \<open>The text and the sentences of the chunk being built: empty together, and the text is
  the sentences joined, with or without a leading space.\<close>

lemma group_fold_shape:
  assumes "fold (group_step budget ov) sents ([], [], 0, []) = (groups, cc, carried, cs)"
  shows "(cs = [] \<longrightarrow> cc = [] \<and> carried = 0 \<and> groups = [] \<and> sents = [])
         \<and> (cs \<noteq> [] \<longrightarrow> carried < length cs \<and> cc \<noteq> []
               \<and> (cc = join '' '' cs \<or> cc = '' '' @ join '' '' cs))"
  using assms
proof (induction sents arbitrary: groups cc carried cs rule: rev_induct)
  case Nil
  then show ?case by simp
next
  case (snoc s sents)
  obtain groups0 cc0 carried0 cs0 where
    prev: "fold (group_step budget ov) sents ([], [], 0, []) = (groups0, cc0, carried0, cs0)"
    by (cases "fold (group_step budget ov) sents ([], [], 0, [])") auto
  note ih = snoc.IH [OF prev]
  from snoc.prems prev have step:
    "group_step budget ov s (groups0, cc0, carried0, cs0) = (groups, cc, carried, cs)"
    by simp
  show ?case
  proof (cases "int (length cc0) + int (length s) < budget")
    case True
    with step have eq: "groups = groups0" "cc = cc0 @ '' '' @ s" "carried = carried0"
      "cs = cs0 @ [s]"
      by (simp_all add: group_step_eq)
    show ?thesis
    proof (cases "cs0 = []")
      case True
      with ih eq show ?thesis by simp
    next
      case False
      with ih eq show ?thesis by (auto simp add: join_snoc)
    qed
  next
    case False
    with step have eq: "cc = join '' '' (overlap_sentences ov cs0) @ '' '' @ s"
      "carried = length (overlap_sentences ov cs0)" "cs = overlap_sentences ov cs0 @ [s]"
      by (simp_all add: group_step_eq)
    show ?thesis
    proof (cases "overlap_sentences ov cs0 = []")
      case True
      with eq show ?thesis by simp
    next
      case False
      with eq show ?thesis by (simp add: join_snoc)
    qed
  qed
qed

lemma chunks_of_length: "length (chunks_of gs) = length gs"
  by (simp add: chunks_of_def)

lemma close_sync:
  assumes "cs \<noteq> [] \<longrightarrow> cc \<noteq> [] \<and> (cc = join '' '' cs \<or> cc = '' '' @ join '' '' cs)"
    and "cs = [] \<longrightarrow> cc = []"
  shows "close_chunk (chunks_of groups) cc cs = chunks_of (close_group groups cc carried cs)"
proof (cases "cc = []")
  case True
  then show ?thesis by (simp add: close_chunk_def close_group_def)
next
  case False
  with assms have "cc = join '' '' cs \<or> cc = '' '' @ join '' '' cs"
    by blast
  then have "strip cc = strip (join '' '' cs)"
    using strip_space by auto
  with False show ?thesis
    by (simp add: close_chunk_def close_group_def chunks_of_snoc group_chunk_def
        chunks_of_length)
qed

lemma chunk_fold_groups:
  assumes "fold (group_step budget ov) sents ([], [], 0, []) = (groups, cc, carried, cs)"
  shows "fold (chunk_step budget ov) sents ([], [], []) = (chunks_of groups, cc, cs)"
  using assms
proof (induction sents arbitrary: groups cc carried cs rule: rev_induct)
  case Nil
  then show ?case by (simp add: chunks_of_def)
next
  case (snoc s sents)
  obtain groups0 cc0 carried0 cs0 where
    prev: "fold (group_step budget ov) sents ([], [], 0, []) = (groups0, cc0, carried0, cs0)"
    by (cases "fold (group_step budget ov) sents ([], [], 0, [])") auto
  note ih = snoc.IH [OF prev]
  note shape = group_fold_shape [OF prev]
  from snoc.prems prev have step:
    "group_step budget ov s (groups0, cc0, carried0, cs0) = (groups, cc, carried, cs)"
    by simp
  have sync: "close_chunk (chunks_of groups0) cc0 cs0
                = chunks_of (close_group groups0 cc0 carried0 cs0)"
    using shape by (intro close_sync) blast+
  show ?case
  proof (cases "int (length cc0) + int (length s) < budget")
    case True
    with step ih show ?thesis
      by (simp add: group_step_eq chunk_step_eq)
  next
    case False
    with step ih sync show ?thesis
      by (simp add: group_step_eq chunk_step_eq)
  qed
qed

lemma group_fold_reconstruct:
  assumes "fold (group_step budget ov) sents ([], [], 0, []) = (groups, cc, carried, cs)"
  shows "concat (map new_sentences groups) @ drop carried cs = sents"
  using assms
proof (induction sents arbitrary: groups cc carried cs rule: rev_induct)
  case Nil
  then show ?case by simp
next
  case (snoc s sents)
  obtain groups0 cc0 carried0 cs0 where
    prev: "fold (group_step budget ov) sents ([], [], 0, []) = (groups0, cc0, carried0, cs0)"
    by (cases "fold (group_step budget ov) sents ([], [], 0, [])") auto
  note ih = snoc.IH [OF prev]
  note shape = group_fold_shape [OF prev]
  from snoc.prems prev have step:
    "group_step budget ov s (groups0, cc0, carried0, cs0) = (groups, cc, carried, cs)"
    by simp
  have le: "carried0 \<le> length cs0"
    using shape by (cases "cs0 = []") simp_all
  show ?case
  proof (cases "int (length cc0) + int (length s) < budget")
    case True
    with step have eq: "groups = groups0" "carried = carried0" "cs = cs0 @ [s]"
      by (simp_all add: group_step_eq)
    from ih le show ?thesis
      unfolding eq by simp
  next
    case False
    with step have eq: "groups = close_group groups0 cc0 carried0 cs0"
      "carried = length (overlap_sentences ov cs0)" "cs = overlap_sentences ov cs0 @ [s]"
      by (simp_all add: group_step_eq)
    show ?thesis
    proof (cases "cc0 = []")
      case True
      with shape have "cs0 = []" by blast
      with shape True have "groups0 = []" "sents = []" by simp_all
      with True show ?thesis
        unfolding eq by (simp add: close_group_def)
    next
      case False
      with ih show ?thesis
        unfolding eq by (simp add: close_group_def new_sentences_def)
    qed
  qed
qed

lemma group_fold_budget:
  assumes "fold (group_step budget ov) sents ([], [], 0, []) = (groups, cc, carried, cs)"
  shows "(\<forall>g\<in>set groups. fst g < length (snd g)
            \<and> (int (length (join '' '' (snd g))) \<le> budget \<or> length (snd g) = fst g + 1))
         \<and> (cs \<noteq> [] \<longrightarrow> int (length cc) \<le> budget \<or> length cs = carried + 1)"
  using assms
proof (induction sents arbitrary: groups cc carried cs rule: rev_induct)
  case Nil
  then show ?case by simp
next
  case (snoc s sents)
  obtain groups0 cc0 carried0 cs0 where
    prev: "fold (group_step budget ov) sents ([], [], 0, []) = (groups0, cc0, carried0, cs0)"
    by (cases "fold (group_step budget ov) sents ([], [], 0, [])") auto
  note ih = snoc.IH [OF prev]
  note shape = group_fold_shape [OF prev]
  from snoc.prems prev have step:
    "group_step budget ov s (groups0, cc0, carried0, cs0) = (groups, cc, carried, cs)"
    by simp
  show ?case
  proof (cases "int (length cc0) + int (length s) < budget")
    case True
    with step have eq: "groups = groups0" "cc = cc0 @ '' '' @ s"
      by (simp_all add: group_step_eq)
    from True have "int (length (cc0 @ '' '' @ s)) \<le> budget"
      by simp
    with ih show ?thesis
      unfolding eq by blast
  next
    case False
    with step have eq: "groups = close_group groups0 cc0 carried0 cs0"
      "carried = length (overlap_sentences ov cs0)" "cs = overlap_sentences ov cs0 @ [s]"
      by (simp_all add: group_step_eq)
    have cur: "length cs = carried + 1"
      unfolding eq by simp
    have closed_ok: "fst g < length (snd g)
            \<and> (int (length (join '' '' (snd g))) \<le> budget \<or> length (snd g) = fst g + 1)"
      if g: "g \<in> set (close_group groups0 cc0 carried0 cs0)" for g
    proof (cases "g \<in> set groups0")
      case True
      with ih show ?thesis by blast
    next
      case False
      with g have g_eq: "g = (carried0, cs0)" and ne: "cc0 \<noteq> []"
        by (auto simp add: close_group_def split: if_splits)
      from ne shape have cs0: "cs0 \<noteq> []" by blast
      with shape have lt: "carried0 < length cs0"
        and form: "cc0 = join '' '' cs0 \<or> cc0 = '' '' @ join '' '' cs0"
        by blast+
      from form have "length (join '' '' cs0) \<le> length cc0"
        by auto
      moreover from ih cs0 have "int (length cc0) \<le> budget \<or> length cs0 = carried0 + 1"
        by blast
      ultimately have "int (length (join '' '' cs0)) \<le> budget \<or> length cs0 = carried0 + 1"
        by linarith
      with lt show ?thesis
        unfolding g_eq by simp
    qed
    from closed_ok cur show ?thesis
      unfolding eq(1) by blast
  qed
qed

lemma overlap_link_take:
  assumes "cs \<noteq> []"
  shows "overlap_link g (k, cs @ [s]) = overlap_link g (k, cs)"
  using assms by (cases cs) (simp_all add: overlap_link_def)

lemma group_fold_chain:
  assumes "fold (group_step budget 50) sents ([], [], 0, []) = (groups, cc, carried, cs)"
  shows "overlap_chain (groups @ [(carried, cs)]) \<and> fst (hd (groups @ [(carried, cs)])) = 0"
  using assms
proof (induction sents arbitrary: groups cc carried cs rule: rev_induct)
  case Nil
  then show ?case by simp
next
  case (snoc s sents)
  obtain groups0 cc0 carried0 cs0 where
    prev: "fold (group_step budget 50) sents ([], [], 0, []) = (groups0, cc0, carried0, cs0)"
    by (cases "fold (group_step budget 50) sents ([], [], 0, [])") auto
  note ih = snoc.IH [OF prev]
  note shape = group_fold_shape [OF prev]
  from snoc.prems prev have step:
    "group_step budget 50 s (groups0, cc0, carried0, cs0) = (groups, cc, carried, cs)"
    by simp
  show ?case
  proof (cases "int (length cc0) + int (length s) < budget")
    case True
    with step have eq: "groups = groups0" "carried = carried0" "cs = cs0 @ [s]"
      by (simp_all add: group_step_eq)
    show ?thesis
    proof (cases "cs0 = []")
      case True
      with shape have "groups0 = []" "carried0 = 0" by simp_all
      then show ?thesis
        unfolding eq by simp
    next
      case False
      with ih show ?thesis
        unfolding eq by (cases "groups0 = []") (simp_all add: overlap_chain_snoc overlap_link_take)
    qed
  next
    case False
    with step have eq: "groups = close_group groups0 cc0 carried0 cs0"
      "carried = length (overlap_sentences 50 cs0)" "cs = overlap_sentences 50 cs0 @ [s]"
      by (simp_all add: group_step_eq)
    show ?thesis
    proof (cases "cc0 = []")
      case True
      with shape have "cs0 = []" by blast
      with shape True have "groups0 = []" by simp
      with True \<open>cs0 = []\<close> show ?thesis
        unfolding eq by (simp add: close_group_def overlap_sentences_default)
    next
      case False
      have link: "overlap_link (carried0, cs0)
                    (length (overlap_sentences 50 cs0), overlap_sentences 50 cs0 @ [s])"
        by (simp add: overlap_link_def overlap_sentences_default)
      from False ih link
        overlap_chain_snoc [of "groups0 @ [(carried0, cs0)]"
          "(length (overlap_sentences 50 cs0), overlap_sentences 50 cs0 @ [s])"]
      show ?thesis
        unfolding eq by (cases "groups0 = []") (simp_all add: close_group_def)
    qed
  qed
qed

text \<open>
  C8 (as amended). Chunk splitting is a function of the sentences of the cleaned text
  and loses none of them. A sentence joins the chunk being built while the length of
  that chunk plus the length of the sentence is below the budget; otherwise the chunk is
  closed and a new one begins, seeded with the last sentence of the closed chunk when
  that chunk holds more than one sentence and with nothing otherwise. So every chunk is
  within the budget unless it holds a single sentence beyond those carried over; the
  text of a chunk is its sentences joined by single spaces and stripped, its id is its
  position; and the chunks' sentences without those carried over, concatenated, are the
  sentences of the text in order.
\<close>

theorem split_into_chunks_covers:
  "split_into_chunks tok text chunk_size overlap
     = chunks_of (sentence_groups chunk_size overlap (tok text))
   \<and> concat (map new_sentences (sentence_groups chunk_size overlap (tok text))) = tok text
   \<and> (\<forall>g\<in>set (sentence_groups chunk_size overlap (tok text)).
         fst g < length (snd g)
         \<and> (int (length (join '' '' (snd g))) \<le> chunk_size \<or> length (snd g) = fst g + 1))
   \<and> overlap_chain (sentence_groups chunk_size 50 (tok text))
   \<and> (sentence_groups chunk_size 50 (tok text) \<noteq> [] \<longrightarrow>
         fst (hd (sentence_groups chunk_size 50 (tok text))) = 0)"
proof -
  obtain groups cc carried cs where
    st: "fold (group_step chunk_size overlap) (tok text) ([], [], 0, [])
           = (groups, cc, carried, cs)"
    by (cases "fold (group_step chunk_size overlap) (tok text) ([], [], 0, [])") auto
  note shape = group_fold_shape [OF st]
  have gs: "sentence_groups chunk_size overlap (tok text) = close_group groups cc carried cs"
    by (simp add: sentence_groups_def st)
  have empty: "cs = []" "groups = []" "tok text = []" if "cc = []"
    using that shape by blast+
  have nonempty: "cs \<noteq> []" if "cc \<noteq> []"
    using that shape by blast
  have p1: "split_into_chunks tok text chunk_size overlap
     = chunks_of (sentence_groups chunk_size overlap (tok text))"
    unfolding gs split_into_chunks_def chunk_fold_groups [OF st]
    using shape by (simp add: close_sync)
  have p2: "concat (map new_sentences (sentence_groups chunk_size overlap (tok text)))
              = tok text"
  proof (cases "cc = []")
    case True
    with empty show ?thesis
      unfolding gs by (simp add: close_group_def)
  next
    case False
    with group_fold_reconstruct [OF st] show ?thesis
      unfolding gs by (simp add: close_group_def new_sentences_def)
  qed
  have p3: "\<forall>g\<in>set (sentence_groups chunk_size overlap (tok text)).
         fst g < length (snd g)
         \<and> (int (length (join '' '' (snd g))) \<le> chunk_size \<or> length (snd g) = fst g + 1)"
  proof
    fix g assume g: "g \<in> set (sentence_groups chunk_size overlap (tok text))"
    note b = group_fold_budget [OF st]
    show "fst g < length (snd g)
         \<and> (int (length (join '' '' (snd g))) \<le> chunk_size \<or> length (snd g) = fst g + 1)"
    proof (cases "g \<in> set groups")
      case True
      with b show ?thesis by blast
    next
      case False
      with g have g_eq: "g = (carried, cs)" and ne: "cc \<noteq> []"
        unfolding gs by (auto simp add: close_group_def split: if_splits)
      from nonempty [OF ne] shape have lt: "carried < length cs"
        and form: "cc = join '' '' cs \<or> cc = '' '' @ join '' '' cs"
        by blast+
      from form have "length (join '' '' cs) \<le> length cc"
        by auto
      moreover from b nonempty [OF ne]
      have "int (length cc) \<le> chunk_size \<or> length cs = carried + 1"
        by blast
      ultimately have "int (length (join '' '' cs)) \<le> chunk_size \<or> length cs = carried + 1"
        by linarith
      with lt show ?thesis
        unfolding g_eq by simp
    qed
  qed
  obtain groups' cc' carried' cs' where
    st': "fold (group_step chunk_size 50) (tok text) ([], [], 0, [])
           = (groups', cc', carried', cs')"
    by (cases "fold (group_step chunk_size 50) (tok text) ([], [], 0, [])") auto
  note shape' = group_fold_shape [OF st']
  note chain = group_fold_chain [OF st']
  have gs': "sentence_groups chunk_size 50 (tok text) = close_group groups' cc' carried' cs'"
    by (simp add: sentence_groups_def st')
  have p45: "overlap_chain (sentence_groups chunk_size 50 (tok text))
             \<and> (sentence_groups chunk_size 50 (tok text) \<noteq> [] \<longrightarrow>
                   fst (hd (sentence_groups chunk_size 50 (tok text))) = 0)"
  proof (cases "cc' = []")
    case True
    with shape' have "groups' = []" by blast
    with True show ?thesis
      unfolding gs' by (simp add: close_group_def)
  next
    case False
    with chain show ?thesis
      unfolding gs' by (simp add: close_group_def)
  qed
  from p1 p2 p3 p45 show ?thesis
    by (intro conjI) simp_all
qed

theorem split_into_chunks_covers_witness:
  "sentence_groups 9 50 five_sentences
     = [(0, [''Aa.'', ''Bb.'']), (1, [''Bb.'', ''Cc.'']), (1, [''Cc.'', ''Dd.'']),
        (1, [''Dd.'', ''Ee.''])]
   \<and> split_into_chunks (\<lambda>t. five_sentences) ''Aa. Bb. Cc. Dd. Ee.'' 9 50
     = [\<lparr> chunk_text = ''Aa. Bb.'', chunk_id = 0, sentence_count = 2 \<rparr>,
        \<lparr> chunk_text = ''Bb. Cc.'', chunk_id = 1, sentence_count = 2 \<rparr>,
        \<lparr> chunk_text = ''Cc. Dd.'', chunk_id = 2, sentence_count = 2 \<rparr>,
        \<lparr> chunk_text = ''Dd. Ee.'', chunk_id = 3, sentence_count = 2 \<rparr>]
   \<and> concat (map new_sentences
         [(0, [''Aa.'', ''Bb.'']), (1, [''Bb.'', ''Cc.'']), (1, [''Cc.'', ''Dd.'']),
          (1, [''Dd.'', ''Ee.''])]) = five_sentences
   \<and> overlap_chain
         [(0, [''Aa.'', ''Bb.'']), (1, [''Bb.'', ''Cc.'']), (1, [''Cc.'', ''Dd.'']),
          (1, [''Dd.'', ''Ee.''])]"
proof -
  let ?gs = "[(0, [''Aa.'', ''Bb.'']), (1, [''Bb.'', ''Cc.'']), (1, [''Cc.'', ''Dd.'']),
        (1, [''Dd.'', ''Ee.''])] :: (nat \<times> string list) list"
  have g: "sentence_groups 9 50 five_sentences = ?gs"
    by code_simp
  have c: "chunks_of ?gs
     = [\<lparr> chunk_text = ''Aa. Bb.'', chunk_id = 0, sentence_count = 2 \<rparr>,
        \<lparr> chunk_text = ''Bb. Cc.'', chunk_id = 1, sentence_count = 2 \<rparr>,
        \<lparr> chunk_text = ''Cc. Dd.'', chunk_id = 2, sentence_count = 2 \<rparr>,
        \<lparr> chunk_text = ''Dd. Ee.'', chunk_id = 3, sentence_count = 2 \<rparr>]"
    by code_simp
  note t = split_into_chunks_covers [of "\<lambda>t. five_sentences" "''Aa. Bb. Cc. Dd. Ee.''" 9 50,
      unfolded g c]
  from t g show ?thesis
    by blast
qed

text \<open>
  The claim as stated has every new chunk seeded with an overlap and the chunks packed up
  to the budget of 500 characters. Two sentences of 300 characters give two chunks that
  share no sentence, and one sentence of 600 characters gives a chunk of 600 characters.
\<close>

theorem chunk_overlap_counterexample:
  "split_into_chunks (\<lambda>t. [long_a, long_b]) (long_a @ '' '' @ long_b) 500 50
     = [\<lparr> chunk_text = long_a, chunk_id = 0, sentence_count = 1 \<rparr>,
        \<lparr> chunk_text = long_b, chunk_id = 1, sentence_count = 1 \<rparr>]
   \<and> sentence_groups 500 50 [long_a, long_b] = [(0, [long_a]), (0, [long_b])]
   \<and> split_into_chunks (\<lambda>t. [long_c]) long_c 500 50
     = [\<lparr> chunk_text = long_c, chunk_id = 0, sentence_count = 1 \<rparr>]
   \<and> length long_c = 600"
  by code_simp

end
